theory Spec2Isabelle
  imports Main "HOL-Library.Char_ord" "HOL-Library.List_Lexorder" "HOL-Library.AList"
    "HOL-Library.Sublist"
begin

section \<open>Python values and text formatting\<close>

text \<open>
  The exceptions that the modelled code can raise. \<open>SystemExit\<close> is the exit of
  \<open>CustomArgumentParser.error\<close> (status 2).
\<close>

datatype error = TypeError | ValueError | UnboundLocalError | SystemExit

text \<open>\<open>str(n)\<close> for a non-negative and for an arbitrary Python integer.\<close>

definition digit_char :: "nat \<Rightarrow> char" where
  "digit_char d = ''0123456789'' ! d"

fun str_nat :: "nat \<Rightarrow> string" where
  "str_nat n = (if n < 10 then [digit_char n] else str_nat (n div 10) @ [digit_char (n mod 10)])"

declare str_nat.simps [simp del]

definition str_int :: "int \<Rightarrow> string" where
  "str_int i = (if i < 0 then CHR ''-'' # str_nat (nat (- i)) else str_nat (nat i))"

text \<open>
  The format specifications \<open>{:<w}\<close> and \<open>{:>w}\<close> applied to a string (or to the
  \<open>str\<close> of an integer): padding with spaces up to width \<open>w\<close>, never truncating.
\<close>

definition ljust :: "nat \<Rightarrow> string \<Rightarrow> string" where
  "ljust w s = s @ replicate (w - length s) CHR '' ''"

definition rjust :: "nat \<Rightarrow> string \<Rightarrow> string" where
  "rjust w s = replicate (w - length s) CHR '' '' @ s"

text \<open>
  \<open>str.center(width, fill)\<close> as CPython computes it: with \<open>marg = width - len\<close>, the left
  padding is \<open>marg // 2 + (marg & width & 1)\<close> and the right padding is the rest.
\<close>

definition center :: "nat \<Rightarrow> char \<Rightarrow> string \<Rightarrow> string" where
  "center width fill s =
     (if width \<le> length s then s
      else let marg = width - length s;
               left = marg div 2 + (if odd marg \<and> odd width then 1 else 0)
           in replicate left fill @ s @ replicate (marg - left) fill)"

text \<open>The argument that \<open>set_max_program_len\<close> receives: an integer, a string or \<open>None\<close>.\<close>

datatype pyval = PyInt int | PyStr string | PyNone

section \<open>Data model\<close>

text \<open>
  A \<open>psutil\<close> connection record, with the fields the program reads: \<open>laddr\<close> is an
  \<open>addr(ip, port)\<close>, \<open>raddr\<close> is an \<open>addr\<close> or the empty tuple, \<open>pid\<close> is the owning
  process id or \<open>None\<close> when the platform does not give it.
\<close>

type_synonym addr = "string \<times> nat"

record connection =
  laddr :: addr
  raddr :: "addr option"
  status :: string
  pid :: "int option"

text \<open>
  A bucket is a Python dictionary from local port to \<open>(pid, program, foreign_address)\<close>.
  Dictionaries keep insertion order, and \<open>sorted\<close> is stable on \<open>items()\<close>, so the
  dictionary is an association list: assigning to a present key replaces the value in place,
  assigning to a new key appends (\<^const>\<open>AList.update\<close>).
\<close>

type_synonym entry = "int option \<times> string option \<times> addr option"

type_synonym port_mapping = "(nat \<times> entry) list"

text \<open>
  The collaborators outside the repository: process-name lookup (\<open>None\<close> when
  \<open>psutil.NoSuchProcess\<close> is raised), the regular-expression compiler (\<open>Inl msg\<close> when
  \<open>re.error\<close> is raised, otherwise the compiled pattern as its \<open>search\<close> predicate),
  \<open>str(connection)\<close>, \<open>socket.getservbyport\<close> (\<open>None\<close> when it raises),
  \<open>socket.getfqdn\<close>, and the formatted local time of \<open>print_header\<close>.
\<close>

record env =
  process_name :: "int option \<Rightarrow> string option"
  re_compile :: "string \<Rightarrow> string + (string \<Rightarrow> bool)"
  conn_str :: "connection \<Rightarrow> string"
  getservbyport :: "nat \<Rightarrow> string option"
  getfqdn :: "string \<Rightarrow> string"
  formatted_now :: string

text \<open>
  What a pass writes to standard output, one constructor per \<open>print\<close> call site, together
  with the calls to the socket library made by \<open>output\<close>.
\<close>

datatype event =
    GetServByPort nat
  | GetFqdn string
  | PrintError string
  | PrintNewlines nat
  | PrintState string
  | PrintHeader string
  | PrintSeparator string
  | PrintLine string
  | PrintStopped

section \<open>OutputManager\<close>

text \<open>The singleton's attributes \<open>_bare\<close>, \<open>_max_program_len\<close>, \<open>_max_line_len\<close>,
  \<open>_header_displayed\<close> with their class-level initial values.\<close>

record OutputManager =
  bare :: bool
  max_program_len :: int
  max_line_len :: nat
  header_displayed :: bool

definition OutputManager_new :: OutputManager where
  "OutputManager_new =
     \<lparr>bare = False, max_program_len = 30, max_line_len = 0, header_displayed = False\<rparr>"

text \<open>
  \<open>_formatter\<close> applied to \<open>(port, program, pid, ...)\<close>: the format string is
  \<open>{:<6} {:<N} {:<6}\<close> with \<open>N = _max_program_len\<close>. A negative \<open>N\<close> is an invalid
  format specification (\<open>ValueError\<close>, found when the second field is formatted), and
  formatting \<open>None\<close> with a non-empty specification is a \<open>TypeError\<close>.
\<close>

definition formatter :: "OutputManager \<Rightarrow> nat \<Rightarrow> string \<Rightarrow> int option \<Rightarrow> error + string" where
  "formatter om port program p =
     (if max_program_len om < 0 then Inl ValueError
      else case p of
             None \<Rightarrow> Inl TypeError
           | Some i \<Rightarrow> Inr (ljust 6 (str_nat port) @ '' '' @
                           ljust (nat (max_program_len om)) program @ '' '' @
                           ljust 6 (str_int i)))"

definition header :: "OutputManager \<Rightarrow> error + string" where
  "header om =
     (if max_program_len om < 0 then Inl ValueError
      else Inr (ljust 6 ''Port:'' @ '' '' @ ljust (nat (max_program_len om)) ''Program'' @ '' '' @
                ljust 6 ''PID'' @ '' '' @ rjust 20 ''Svc Name / Foreign Addr''))"

definition separator :: "OutputManager \<Rightarrow> string" where
  "separator om = replicate (max_line_len om) CHR ''-''"

definition set_bare :: "bool \<Rightarrow> OutputManager \<Rightarrow> OutputManager" where
  "set_bare b om = om\<lparr>bare := b\<rparr>"

text \<open>
  \<open>set_max_program_len\<close>: a string is replaced by its length; the comparison
  \<open>max_program_len > self._max_program_len\<close> raises \<open>TypeError\<close> for \<open>None\<close>.
\<close>

fun set_max_program_len :: "pyval \<Rightarrow> OutputManager \<Rightarrow> error + OutputManager" where
  "set_max_program_len (PyStr s) om =
     Inr (if int (length s) > max_program_len om then om\<lparr>max_program_len := int (length s)\<rparr> else om)"
| "set_max_program_len (PyInt n) om =
     Inr (if n > max_program_len om then om\<lparr>max_program_len := n\<rparr> else om)"
| "set_max_program_len PyNone om = Inl TypeError"

text \<open>
  \<open>OutputManager.output\<close> (here \<open>output_line\<close>) returns the socket-library calls it
  made and the line (or the exception of the format call). The foreign address is rendered
  as \<open>ip:port\<close>, followed by the name of \<open>getfqdn\<close> in parentheses when DNS is on.
  The service name is looked up before the mode is tested. In bare mode the format string
  has three fields, so the fourth argument is not rendered.
  Service names are taken to be free of braces, as those of the services database are.
\<close>

definition foreign_address_string :: "env \<Rightarrow> addr option \<Rightarrow> bool \<Rightarrow> string" where
  "foreign_address_string env foreign_address dns =
     (case foreign_address of
        None \<Rightarrow> []
      | Some (ip, fport) \<Rightarrow>
          if dns then ip @ '':'' @ str_nat fport @ '' ('' @ getfqdn env ip @ '')''
          else ip @ '':'' @ str_nat fport)"

definition output_line ::
  "env \<Rightarrow> OutputManager \<Rightarrow> nat \<Rightarrow> string option \<Rightarrow> int option \<Rightarrow> addr option \<Rightarrow> bool
     \<Rightarrow> event list \<times> (error + string)" where
  "output_line env om port program p foreign_address dns =
     (let program' = (case program of None \<Rightarrow> ''<unknown>''
                      | Some s \<Rightarrow> if s = [] then ''<unknown>'' else s);
          foreign_address_str = foreign_address_string env foreign_address dns;
          dns_calls = (case foreign_address of None \<Rightarrow> []
                       | Some (ip, fport) \<Rightarrow> if dns then [GetFqdn ip] else []);
          service_name = (case getservbyport env port of None \<Rightarrow> [] | Some s \<Rightarrow> s);
          calls = dns_calls @ [GetServByPort port]
      in case formatter om port program' p of
           Inl e \<Rightarrow> (calls, Inl e)
         | Inr pre \<Rightarrow>
             if bare om then (calls, Inr pre)
             else if service_name \<noteq> [] \<and> foreign_address_str \<noteq> [] then
               (calls, Inr (pre @ ljust 10 (''SVC: '' @ service_name) @ '' '' @
                            rjust 40 foreign_address_str))
             else if service_name \<noteq> [] \<and> foreign_address_str = [] then
               (calls, Inr (pre @ ljust 20 (''SVC: '' @ service_name)))
             else (calls, Inr (pre @ rjust 40 foreign_address_str)))"

text \<open>
  \<open>calculate_max_line_len\<close>: renders every entry once and stores the longest line's length.
  An exception of \<open>output\<close> leaves \<open>_max_line_len\<close> as it was.
\<close>

fun max_line_loop ::
  "env \<Rightarrow> OutputManager \<Rightarrow> bool \<Rightarrow> (nat \<times> entry) list \<Rightarrow> nat \<Rightarrow> event list \<times> (error + nat)" where
  "max_line_loop env om dns [] m = ([], Inr m)"
| "max_line_loop env om dns ((port, (p, program, foreign_address)) # rest) m =
     (case output_line env om port program p foreign_address dns of
        (calls, Inl e) \<Rightarrow> (calls, Inl e)
      | (calls, Inr line) \<Rightarrow>
          (case max_line_loop env om dns rest (max m (length line)) of
             (calls', r) \<Rightarrow> (calls @ calls', r)))"

definition calculate_max_line_len ::
  "env \<Rightarrow> OutputManager \<Rightarrow> (nat \<times> entry) list \<Rightarrow> bool \<Rightarrow> event list \<times> OutputManager \<times> (error + unit)" where
  "calculate_max_line_len env om connections dns =
     (case max_line_loop env om dns connections 0 of
        (calls, Inl e) \<Rightarrow> (calls, om, Inl e)
      | (calls, Inr m) \<Rightarrow> (calls, om\<lparr>max_line_len := m\<rparr>, Inr ()))"

text \<open>\<open>print_header\<close>: the centred title with the time, the column header, the separator.\<close>

definition print_header ::
  "env \<Rightarrow> OutputManager \<Rightarrow> string \<Rightarrow> bool \<Rightarrow> bool \<Rightarrow> bool \<Rightarrow> event list \<times> (error + unit)" where
  "print_header env om state bState bHeader bSeparator =
     (let centered_state =
            center (max_line_len om) CHR ''-'' (state @ '' ('' @ formatted_now env @ '')'');
          title = (if bState then [PrintState centered_state] else []);
          rule = (if bSeparator then [PrintSeparator (separator om)] else [])
      in if bare om then ([], Inr ())
         else if bHeader then
           (case header om of
              Inl e \<Rightarrow> (title, Inl e)
            | Inr h \<Rightarrow> (title @ [PrintHeader h] @ rule, Inr ()))
         else (title @ rule, Inr ()))"

text \<open>The loop of \<open>print_section\<close> that prints one line per entry.\<close>

fun print_lines ::
  "env \<Rightarrow> OutputManager \<Rightarrow> bool \<Rightarrow> (nat \<times> entry) list \<Rightarrow> event list \<times> (error + unit)" where
  "print_lines env om dns [] = ([], Inr ())"
| "print_lines env om dns ((port, (p, program, foreign_address)) # rest) =
     (case output_line env om port program p foreign_address dns of
        (calls, Inl e) \<Rightarrow> (calls, Inl e)
      | (calls, Inr line) \<Rightarrow>
          (case print_lines env om dns rest of
             (evs, r) \<Rightarrow> (calls @ [PrintLine line] @ evs, r)))"

text \<open>
  The statements of \<open>print_section\<close> from line 125 on: the blank lines, the header block
  unless in bare mode, one line per entry, the trailing blank lines. The events before them
  are passed in \<open>ev0\<close>.
\<close>

definition print_section_body ::
  "env \<Rightarrow> OutputManager \<Rightarrow> string \<Rightarrow> (nat \<times> entry) list \<Rightarrow> nat \<Rightarrow> nat \<Rightarrow> bool \<Rightarrow> bool \<Rightarrow> bool \<Rightarrow> bool
     \<Rightarrow> event list \<Rightarrow> event list \<times> OutputManager \<times> (error + unit)" where
  "print_section_body env om state connections lines_before lines_after bState bHeader bSeparator
       dns ev0 =
     (case (if \<not> bare om then print_header env om state bState bHeader bSeparator
            else ([], Inr ())) of
        (ev2, Inl e) \<Rightarrow> (ev0 @ [PrintNewlines lines_before] @ ev2, om, Inl e)
      | (ev2, Inr u) \<Rightarrow>
          (case print_lines env om dns connections of
             (ev3, Inl e) \<Rightarrow> (ev0 @ [PrintNewlines lines_before] @ ev2 @ ev3, om, Inl e)
           | (ev3, Inr u) \<Rightarrow>
               (ev0 @ [PrintNewlines lines_before] @ ev2 @ ev3 @ [PrintNewlines lines_after],
                om, Inr ())))"

text \<open>
  \<open>print_section\<close>: the width pre-pass (always without DNS), nothing more for an empty
  section; otherwise the first non-empty section of the run sets \<open>_header_displayed\<close>,
  drops the leading blank lines and asks for header and separator.
\<close>

definition print_section ::
  "env \<Rightarrow> OutputManager \<Rightarrow> string \<Rightarrow> (nat \<times> entry) list \<Rightarrow> nat \<Rightarrow> nat \<Rightarrow> bool \<Rightarrow> bool \<Rightarrow> bool \<Rightarrow> bool
     \<Rightarrow> event list \<times> OutputManager \<times> (error + unit)" where
  "print_section env om state connections lines_before lines_after bState bHeader bSeparator dns =
     (case calculate_max_line_len env om connections False of
        (ev0, om1, Inl e) \<Rightarrow> (ev0, om1, Inl e)
      | (ev0, om1, Inr u) \<Rightarrow>
          if connections = [] then (ev0, om1, Inr ())
          else if header_displayed om1 = False then
            print_section_body env (om1\<lparr>header_displayed := True\<rparr>) state connections
              0 lines_after bState True True dns ev0
          else
            print_section_body env om1 state connections
              lines_before lines_after bState bHeader bSeparator dns ev0)"

section \<open>Classification\<close>

definition get_program_by_pid :: "env \<Rightarrow> int option \<Rightarrow> string option" where
  "get_program_by_pid env p = process_name env p"

text \<open>\<open>process_connection\<close>: one dictionary assignment, chosen by the connection's status.\<close>

definition process_connection ::
  "env \<Rightarrow> connection \<Rightarrow> port_mapping \<Rightarrow> port_mapping \<Rightarrow> port_mapping \<times> port_mapping" where
  "process_connection env c listening_mapping non_listening_mapping =
     (let port = snd (laddr c);
          p = pid c;
          foreign_address = raddr c;
          program = get_program_by_pid env p
      in if status c = ''LISTEN''
         then (AList.update port (p, program, foreign_address) listening_mapping,
               non_listening_mapping)
         else (listening_mapping,
               AList.update port (p, program, foreign_address) non_listening_mapping))"

text \<open>
  The local variable \<open>pattern\<close>: not assigned when \<open>re.compile\<close> raised, \<open>None\<close> when no
  (or an empty) expression was given, a compiled pattern otherwise.
\<close>

datatype pattern_var = Unbound | NoPattern | Pattern "string \<Rightarrow> bool"

definition compile_pattern :: "env \<Rightarrow> string option \<Rightarrow> event list \<times> pattern_var" where
  "compile_pattern env regex =
     (case regex of
        None \<Rightarrow> ([], NoPattern)
      | Some r \<Rightarrow>
          if r = [] then ([], NoPattern)
          else (case re_compile env r of
                  Inl msg \<Rightarrow> ([PrintError (''Error: '' @ msg)], Unbound)
                | Inr pat \<Rightarrow> ([], Pattern pat)))"

text \<open>
  The test of line 204, \<open>pattern and not pattern.search(str(connection)) and not
  pattern.search(get_program_by_pid(connection.pid))\<close>: \<open>Inr True\<close> when the connection is
  skipped. Reading the unassigned variable raises \<open>UnboundLocalError\<close>; \<open>search(None)\<close>
  raises \<open>TypeError\<close>.
\<close>

definition excluded :: "env \<Rightarrow> pattern_var \<Rightarrow> connection \<Rightarrow> error + bool" where
  "excluded env pattern c =
     (case pattern of
        Unbound \<Rightarrow> Inl UnboundLocalError
      | NoPattern \<Rightarrow> Inr False
      | Pattern pat \<Rightarrow>
          if pat (conn_str env c) then Inr False
          else (case get_program_by_pid env (pid c) of
                  None \<Rightarrow> Inl TypeError
                | Some name \<Rightarrow> Inr (\<not> pat name)))"

definition name_value :: "string option \<Rightarrow> pyval" where
  "name_value n = (case n of None \<Rightarrow> PyNone | Some s \<Rightarrow> PyStr s)"

text \<open>
  The loop over \<open>all_connections\<close>. The state is the singleton and the two dictionaries;
  it is returned also when an exception ends the loop.
\<close>

fun connection_loop ::
  "env \<Rightarrow> bool \<Rightarrow> pattern_var \<Rightarrow> connection list \<Rightarrow> OutputManager \<times> port_mapping \<times> port_mapping
     \<Rightarrow> (OutputManager \<times> port_mapping \<times> port_mapping) \<times> (error + unit)" where
  "connection_loop env listening_only pattern [] s = (s, Inr ())"
| "connection_loop env listening_only pattern (c # cs) (om, lm, nm) =
     (if listening_only \<and> status c \<noteq> ''LISTEN''
      then connection_loop env listening_only pattern cs (om, lm, nm)
      else case excluded env pattern c of
             Inl e \<Rightarrow> ((om, lm, nm), Inl e)
           | Inr True \<Rightarrow> connection_loop env listening_only pattern cs (om, lm, nm)
           | Inr False \<Rightarrow>
               (case process_connection env c lm nm of
                  (lm', nm') \<Rightarrow>
                    (case set_max_program_len (name_value (get_program_by_pid env (pid c))) om of
                       Inl e \<Rightarrow> ((om, lm', nm'), Inl e)
                     | Inr om' \<Rightarrow> connection_loop env listening_only pattern cs (om', lm', nm'))))"

section \<open>Sorting\<close>

text \<open>
  \<open>sorted(items, key=f)\<close>: the keys are computed first, for every item in order (the first
  exception ends the call), then the items are sorted by key with a stable sort.
\<close>

fun decorate :: "('a \<Rightarrow> error + 'k) \<Rightarrow> 'a list \<Rightarrow> error + ('k \<times> 'a) list" where
  "decorate f [] = Inr []"
| "decorate f (x # xs) =
     (case f x of
        Inl e \<Rightarrow> Inl e
      | Inr k \<Rightarrow> (case decorate f xs of Inl e \<Rightarrow> Inl e | Inr ks \<Rightarrow> Inr ((k, x) # ks)))"

definition sorted_py :: "('a \<Rightarrow> error + 'k::linorder) \<Rightarrow> 'a list \<Rightarrow> error + 'a list" where
  "sorted_py f xs =
     (case decorate f xs of Inl e \<Rightarrow> Inl e | Inr ks \<Rightarrow> Inr (map snd (sort_key fst ks)))"

text \<open>The three key functions: \<open>int(x[1][0])\<close>, \<open>int(x[0])\<close> and
  \<open>x[1][1] if x[1][1] else ''\<close>.\<close>

definition pid_key :: "nat \<times> entry \<Rightarrow> error + int" where
  "pid_key x = (case fst (snd x) of None \<Rightarrow> Inl TypeError | Some i \<Rightarrow> Inr i)"

definition port_key :: "nat \<times> entry \<Rightarrow> error + nat" where
  "port_key x = Inr (fst x)"

definition program_key :: "nat \<times> entry \<Rightarrow> error + string" where
  "program_key x = Inr (case fst (snd (snd x)) of None \<Rightarrow> [] | Some s \<Rightarrow> if s = [] then [] else s)"

definition sort_bucket :: "string \<Rightarrow> port_mapping \<Rightarrow> error + (nat \<times> entry) list" where
  "sort_bucket sort_by m =
     (if sort_by = ''PID'' then sorted_py pid_key m
      else if sort_by = ''Port'' then sorted_py port_key m
      else if sort_by = ''Program'' then sorted_py program_key m
      else sorted_py port_key m)"

section \<open>One pass and the refresh loop\<close>

text \<open>
  \<open>get_port_program_mapping\<close>: the connections of the pass are a parameter
  (\<open>psutil.net_connections()\<close>). The result carries the events, the singleton's state at
  the end (also when an exception ended the pass) and the two dictionaries.
\<close>

definition get_port_program_mapping ::
  "env \<Rightarrow> connection list \<Rightarrow> OutputManager \<Rightarrow> string \<Rightarrow> bool \<Rightarrow> bool \<Rightarrow> bool \<Rightarrow> string option
     \<Rightarrow> event list \<times> OutputManager \<times> (error + port_mapping \<times> port_mapping)" where
  "get_port_program_mapping env all_connections om sort_by b listening_only dns regex =
     (case compile_pattern env regex of
        (evc, pattern) \<Rightarrow>
          (case connection_loop env listening_only pattern all_connections (set_bare b om, [], []) of
             ((om1, lm, nm), Inl e) \<Rightarrow> (evc, om1, Inl e)
           | ((om1, lm, nm), Inr u) \<Rightarrow>
               (case sort_bucket sort_by lm of
                  Inl e \<Rightarrow> (evc, om1, Inl e)
                | Inr sorted_listening \<Rightarrow>
                    (case sort_bucket sort_by nm of
                       Inl e \<Rightarrow> (evc, om1, Inl e)
                     | Inr sorted_non_listening \<Rightarrow>
                         (case print_section env om1 ''LISTENING'' sorted_listening 1 0
                                 True False False dns of
                            (ev1, om2, Inl e) \<Rightarrow> (evc @ ev1, om2, Inl e)
                          | (ev1, om2, Inr u) \<Rightarrow>
                              if listening_only then (evc @ ev1, om2, Inr (lm, nm))
                              else
                                (case print_section env om2 ''NON-LISTENING'' sorted_non_listening
                                        1 0 True False False dns of
                                   (ev2, om3, Inl e) \<Rightarrow> (evc @ ev1 @ ev2, om3, Inl e)
                                 | (ev2, om3, Inr u) \<Rightarrow>
                                     (evc @ ev1 @ ev2, om3, Inr (lm, nm))))))))"

text \<open>
  The command line as \<open>argparse\<close> sees it: \<open>opt_sort\<close> is \<open>None\<close> when \<open>-s\<close> is not
  given, \<open>opt_continuous\<close> is \<open>None\<close> when \<open>-c\<close> is not given and \<open>Some None\<close> when it
  is given without a value. \<open>--sort\<close> has \<open>choices=['PID', 'Port', 'Program']\<close> and
  \<open>default='Program'\<close>; \<open>-c\<close> has \<open>const=10\<close>.
\<close>

record cli =
  opt_pid :: bool
  opt_port :: bool
  opt_sort :: "string option"
  opt_bare :: bool
  opt_listening :: bool
  opt_dns :: bool
  opt_regex :: "string option"
  opt_continuous :: "int option option"

record args =
  arg_pid :: bool
  arg_port :: bool
  arg_sort :: string
  arg_bare :: bool
  arg_listening :: bool
  arg_dns :: bool
  arg_regex :: "string option"
  arg_continuous :: "int option"

definition parse_args :: "cli \<Rightarrow> error + args" where
  "parse_args c =
     (case (case opt_sort c of
              None \<Rightarrow> Inr ''Program''
            | Some s \<Rightarrow> if s \<in> set [''PID'', ''Port'', ''Program''] then Inr s else Inl SystemExit) of
        Inl e \<Rightarrow> Inl e
      | Inr s \<Rightarrow>
          Inr \<lparr>arg_pid = opt_pid c, arg_port = opt_port c, arg_sort = s, arg_bare = opt_bare c,
               arg_listening = opt_listening c, arg_dns = opt_dns c, arg_regex = opt_regex c,
               arg_continuous = (case opt_continuous c of None \<Rightarrow> None
                                 | Some None \<Rightarrow> Some 10 | Some (Some n) \<Rightarrow> Some n)\<rparr>)"

text \<open>The shorthand flags: \<open>if args.pid: args.sort = 'PID' elif args.port: args.sort = 'Port'\<close>.\<close>

definition select_sort :: "args \<Rightarrow> args" where
  "select_sort a =
     (if arg_pid a then a\<lparr>arg_sort := ''PID''\<rparr>
      else if arg_port a then a\<lparr>arg_sort := ''Port''\<rparr>
      else a)"

text \<open>
  The \<open>while True\<close> loop. Each pass sees the collaborators and the connection list of its
  moment, so a run is given by the list of these; the list's end is the interrupt that
  stops a continuous run. \<open>time.sleep\<close> of a negative interval raises \<open>ValueError\<close>.
\<close>

fun main_loop ::
  "args \<Rightarrow> (env \<times> connection list) list \<Rightarrow> OutputManager \<Rightarrow> event list \<times> OutputManager \<times> (error + unit)" where
  "main_loop a [] om = ([PrintStopped], om, Inr ())"
| "main_loop a ((env, all_connections) # rest) om =
     (case get_port_program_mapping env all_connections om (arg_sort a) (arg_bare a)
             (arg_listening a) (arg_dns a) (arg_regex a) of
        (ev, om', Inl e) \<Rightarrow> (ev, om', Inl e)
      | (ev, om', Inr r) \<Rightarrow>
          (case arg_continuous a of
             None \<Rightarrow> (ev, om', Inr ())
           | Some n \<Rightarrow>
               if n < 0 then (ev, om', Inl ValueError)
               else (case main_loop a rest om' of (ev', om'', r') \<Rightarrow> (ev @ ev', om'', r'))))"

definition main ::
  "cli \<Rightarrow> (env \<times> connection list) list \<Rightarrow> event list \<times> OutputManager \<times> (error + unit)" where
  "main c passes =
     (case parse_args c of
        Inl e \<Rightarrow> ([], OutputManager_new, Inl e)
      | Inr a \<Rightarrow> main_loop (select_sort a) passes OutputManager_new)"

section \<open>Example inputs\<close>

text \<open>
  A concrete environment and the connections of the specification's example, used to
  evaluate the definitions. The example pattern compiler knows literal expressions only
  (a literal matches where it occurs as a substring) and rejects \<open>(\<close> as \<open>re.compile\<close>
  does; \<open>example_str\<close> renders a connection in the shape of \<open>str\<close> of the named tuple.
\<close>

definition example_str :: "connection \<Rightarrow> string" where
  "example_str c =
     ''sconn(fd=-1, family=2, type=1, laddr=addr(ip='' @ fst (laddr c) @ '', port='' @
     str_nat (snd (laddr c)) @ ''), raddr='' @
     (case raddr c of None \<Rightarrow> ''()''
      | Some (ip, p) \<Rightarrow> ''addr(ip='' @ ip @ '', port='' @ str_nat p @ '')'') @
     '', status='' @ status c @ '', pid='' @
     (case pid c of None \<Rightarrow> ''None'' | Some i \<Rightarrow> str_int i) @ '')''"

definition example_env :: env where
  "example_env =
     \<lparr>process_name = (\<lambda>p. if p = Some 100 then Some ''nginx''
                          else if p = Some 200 then Some ''curl''
                          else if p = Some 300 then Some ''com.example.background-synchronisation-agent''
                          else None),
      re_compile = (\<lambda>r. if r = ''('' then Inl ''missing ), unterminated subpattern at position 0''
                        else Inr (sublist r)),
      conn_str = example_str,
      getservbyport = (\<lambda>p. if p = 80 then Some ''http'' else if p = 443 then Some ''https''
                           else None),
      getfqdn = (\<lambda>ip. if ip = ''93.184.216.34'' then ''example.com'' else ip),
      formatted_now = ''26.11.04 12:00:00 (+00:00)''\<rparr>"

definition listen80 :: connection where
  "listen80 = \<lparr>laddr = (''0.0.0.0'', 80), raddr = None, status = ''LISTEN'', pid = Some 100\<rparr>"

definition listen443 :: connection where
  "listen443 = \<lparr>laddr = (''0.0.0.0'', 443), raddr = None, status = ''LISTEN'', pid = Some 100\<rparr>"

definition estab51000 :: connection where
  "estab51000 = \<lparr>laddr = (''10.0.0.5'', 51000), raddr = Some (''93.184.216.34'', 80),
                  status = ''ESTABLISHED'', pid = Some 200\<rparr>"

definition listen8080 :: connection where
  "listen8080 = \<lparr>laddr = (''127.0.0.1'', 8080), raddr = None, status = ''LISTEN'', pid = Some 300\<rparr>"

definition estab443a :: connection where
  "estab443a = \<lparr>laddr = (''10.0.0.5'', 443), raddr = Some (''198.51.100.7'', 50001),
                 status = ''ESTABLISHED'', pid = Some 100\<rparr>"

definition estab443b :: connection where
  "estab443b = \<lparr>laddr = (''10.0.0.5'', 443), raddr = Some (''203.0.113.9'', 50002),
                 status = ''ESTABLISHED'', pid = Some 100\<rparr>"

definition gone4242 :: connection where
  "gone4242 = \<lparr>laddr = (''0.0.0.0'', 8443), raddr = None, status = ''LISTEN'', pid = Some 4242\<rparr>"

text \<open>
  A socket that belongs to another user: \<open>psutil\<close> lists it with \<open>pid=None\<close>, and
  \<open>psutil.Process(None)\<close> is the running interpreter, so the name lookup succeeds.
\<close>

definition unowned5353 :: connection where
  "unowned5353 = \<lparr>laddr = (''0.0.0.0'', 5353), raddr = None, status = ''LISTEN'', pid = None\<rparr>"

definition unowned_env :: env where
  "unowned_env =
     example_env\<lparr>process_name :=
       (\<lambda>p. if p = None then Some ''python3'' else process_name example_env p)\<rparr>"

definition no_options :: cli where
  "no_options =
     \<lparr>opt_pid = False, opt_port = False, opt_sort = None, opt_bare = False,
      opt_listening = False, opt_dns = False, opt_regex = None, opt_continuous = None\<rparr>"

definition bare_continuous :: cli where
  "bare_continuous =
     \<lparr>opt_pid = False, opt_port = True, opt_sort = None, opt_bare = True, opt_listening = False,
      opt_dns = False, opt_regex = None, opt_continuous = Some None\<rparr>"

section \<open>Notions used in the statements\<close>

text \<open>
  A connection is routed when the loop of \<open>get_port_program_mapping\<close> reaches
  \<open>process_connection\<close> for it: it passes the listening-only test of line 202 and the
  filter test of line 204 returns without skipping it.
\<close>

definition routed :: "env \<Rightarrow> bool \<Rightarrow> pattern_var \<Rightarrow> connection \<Rightarrow> bool" where
  "routed env listening_only pattern c \<longleftrightarrow>
     \<not> (listening_only \<and> status c \<noteq> ''LISTEN'') \<and> excluded env pattern c = Inr False"

text \<open>The dictionary item that \<open>process_connection\<close> writes for a connection.\<close>

definition item_of :: "env \<Rightarrow> connection \<Rightarrow> nat \<times> entry" where
  "item_of env c = (snd (laddr c), pid c, get_program_by_pid env (pid c), raddr c)"

text \<open>The width that a connection with a resolved name reports.\<close>

definition name_width :: "env \<Rightarrow> connection \<Rightarrow> int" where
  "name_width env c = (case get_program_by_pid env (pid c) of None \<Rightarrow> 0 | Some s \<Rightarrow> int (length s))"



section \<open>Evaluation of the text primitives\<close>

lemma replicate_numeral: "replicate (numeral k) x = x # replicate (pred_numeral k) x"
  by (simp add: numeral_eq_Suc)

section \<open>The width of the program column\<close>
lemma set_max_program_len_grows:
  "set_max_program_len v om = Inr om' \<Longrightarrow>
     max_program_len om \<le> max_program_len om' \<and> bare om' = bare om \<and>
     header_displayed om' = header_displayed om \<and> max_line_len om' = max_line_len om"
  by (cases v) (auto split: if_splits)

lemma connection_loop_grows:
  "connection_loop env lo pat cs (om, lm, nm) = ((om', lm', nm'), r) \<Longrightarrow>
     max_program_len om \<le> max_program_len om' \<and> bare om' = bare om \<and>
     header_displayed om' = header_displayed om"
proof (induction cs arbitrary: om lm nm)
  case Nil
  then show ?case by simp
next
  case (Cons c cs)
  show ?case
  proof (cases "lo \<and> status c \<noteq> ''LISTEN''")
    case True
    with Cons.prems have "connection_loop env lo pat cs (om, lm, nm) = ((om', lm', nm'), r)"
      by simp
    then show ?thesis by (rule Cons.IH)
  next
    case False
    show ?thesis
    proof (cases "excluded env pat c")
      case (Inl e)
      with False Cons.prems show ?thesis by auto
    next
      case (Inr skip)
      show ?thesis
      proof (cases skip)
        case True
        with Inr False Cons.prems
        have "connection_loop env lo pat cs (om, lm, nm) = ((om', lm', nm'), r)" by auto
        then show ?thesis by (rule Cons.IH)
      next
        case nskip: False
        obtain lm1 nm1 where pc: "process_connection env c lm nm = (lm1, nm1)"
          by (cases "process_connection env c lm nm")
        show ?thesis
        proof (cases "set_max_program_len (name_value (get_program_by_pid env (pid c))) om")
          case (Inl e)
          with nskip Inr False pc Cons.prems show ?thesis by auto
        next
          case (Inr om1)
          with nskip \<open>excluded env pat c = Inr skip\<close> False pc Cons.prems
          have "connection_loop env lo pat cs (om1, lm1, nm1) = ((om', lm', nm'), r)" by auto
          from Cons.IH[OF this] set_max_program_len_grows[OF Inr] show ?thesis by auto
        qed
      qed
    qed
  qed
qed

lemma calculate_max_line_len_keeps:
  "calculate_max_line_len env om cs dns = (evs, om', r) \<Longrightarrow>
     max_program_len om' = max_program_len om \<and> bare om' = bare om \<and>
     header_displayed om' = header_displayed om"
  by (auto simp: calculate_max_line_len_def split: prod.splits sum.splits)

lemma print_section_body_state:
  "print_section_body env om st cs lb la bs bh bsep dns ev0 = (evs, om', r) \<Longrightarrow> om' = om"
  unfolding print_section_body_def
  by (auto split: prod.splits sum.splits)

lemma print_section_keeps:
  "print_section env om st cs lb la bs bh bsep dns = (evs, om', r) \<Longrightarrow>
     max_program_len om' = max_program_len om \<and> bare om' = bare om"
  unfolding print_section_def
  by (auto split: prod.splits sum.splits if_splits
           dest!: calculate_max_line_len_keeps print_section_body_state)

lemma pass_grows:
  assumes "get_port_program_mapping env cs om sb b lo dns rx = (evs, om', r)"
  shows "max_program_len om \<le> max_program_len om'"
proof -
  obtain evc pat where cp: "compile_pattern env rx = (evc, pat)"
    by (cases "compile_pattern env rx")
  obtain om1 lm nm r1 where cl:
    "connection_loop env lo pat cs (set_bare b om, [], []) = ((om1, lm, nm), r1)"
    by (cases "connection_loop env lo pat cs (set_bare b om, [], [])") auto
  from connection_loop_grows[OF cl] have g1: "max_program_len om \<le> max_program_len om1"
    by (simp add: set_bare_def)
  from assms cp cl have "max_program_len om1 = max_program_len om'"
    unfolding get_port_program_mapping_def
    by (auto split: sum.splits prod.splits if_splits dest!: print_section_keeps)
  with g1 show ?thesis by simp
qed

lemma main_loop_grows:
  "main_loop a passes om = (evs, om', r) \<Longrightarrow> max_program_len om \<le> max_program_len om'"
proof (induction passes arbitrary: om evs om' r)
  case Nil
  then show ?case by simp
next
  case (Cons p passes)
  obtain env cs where p: "p = (env, cs)" by (cases p)
  obtain ev1 om1 r1 where t: "get_port_program_mapping env cs om (arg_sort a) (arg_bare a)
             (arg_listening a) (arg_dns a) (arg_regex a) = (ev1, om1, r1)"
    by (cases "get_port_program_mapping env cs om (arg_sort a) (arg_bare a)
             (arg_listening a) (arg_dns a) (arg_regex a)") auto
  note g = pass_grows[OF t]
  show ?case
  proof (cases r1)
    case (Inl e)
    with Cons.prems p t g show ?thesis by simp
  next
    case (Inr res)
    show ?thesis
    proof (cases "arg_continuous a")
      case None
      with Inr Cons.prems p t g show ?thesis by simp
    next
      case (Some n)
      show ?thesis
      proof (cases "n < 0")
        case True
        with Some Inr Cons.prems p t g show ?thesis by simp
      next
        case False
        obtain ev2 om2 r2 where m: "main_loop a passes om1 = (ev2, om2, r2)"
          by (cases "main_loop a passes om1") auto
        from Cons.IH[OF m] have "max_program_len om1 \<le> max_program_len om2" .
        moreover from False Some Inr Cons.prems p t m have "om' = om2" by simp
        ultimately show ?thesis using g by simp
      qed
    qed
  qed
qed

lemma main_loop_prefix_grows:
  "main_loop a p1 om = (e1, om1, r1) \<Longrightarrow> main_loop a (p1 @ p2) om = (e2, om2, r2) \<Longrightarrow>
     max_program_len om1 \<le> max_program_len om2"
proof (induction p1 arbitrary: om e1 om1 r1 e2 om2 r2)
  case Nil
  then show ?case using main_loop_grows[of a p2 om e2 om2 r2] by simp
next
  case (Cons p p1)
  obtain env cs where p: "p = (env, cs)" by (cases p)
  obtain ev1 om' r' where t: "get_port_program_mapping env cs om (arg_sort a) (arg_bare a)
             (arg_listening a) (arg_dns a) (arg_regex a) = (ev1, om', r')"
    by (cases "get_port_program_mapping env cs om (arg_sort a) (arg_bare a)
             (arg_listening a) (arg_dns a) (arg_regex a)") auto
  show ?case
  proof (cases "\<exists>res n. r' = Inr res \<and> arg_continuous a = Some n \<and> \<not> n < 0")
    case True
    then obtain res n where c: "r' = Inr res" "arg_continuous a = Some n" "\<not> n < 0" by blast
    obtain ea oma ra where ma: "main_loop a p1 om' = (ea, oma, ra)"
      by (cases "main_loop a p1 om'") auto
    obtain eb omb rb where mb: "main_loop a (p1 @ p2) om' = (eb, omb, rb)"
      by (cases "main_loop a (p1 @ p2) om'") auto
    from Cons.prems(1) p t c ma have "om1 = oma" by simp
    moreover from Cons.prems(2) p t c mb have "om2 = omb" by simp
    ultimately show ?thesis using Cons.IH[OF ma mb] by simp
  next
    case False
    with Cons.prems p t have "om1 = om'" "om2 = om'"
      by (auto split: sum.splits option.splits if_splits)
    then show ?thesis by simp
  qed
qed

text \<open>
  Claim C8. Within a run the program-name width never shrinks and never falls below 30:
  a width report that returns leaves it at least as large, so does every pass (also one that
  ends in an exception), the width after an initial segment of the passes of a run is at most
  the width after a longer run, and the run starts from 30.
\<close>

theorem max_program_len_never_shrinks:
  "(set_max_program_len v om = Inr om1 \<longrightarrow> max_program_len om \<le> max_program_len om1) \<and>
   (get_port_program_mapping env cs om sb b lo dns rx = (evs2, om2, r2) \<longrightarrow>
      max_program_len om \<le> max_program_len om2) \<and>
   (main_loop a p1 om = (evs3, om3, r3) \<and> main_loop a (p1 @ p2) om = (evs4, om4, r4) \<longrightarrow>
      max_program_len om \<le> max_program_len om3 \<and> max_program_len om3 \<le> max_program_len om4) \<and>
   (main c passes = (evs5, om5, r5) \<longrightarrow> 30 \<le> max_program_len om5)"
proof (intro conjI impI)
  assume "set_max_program_len v om = Inr om1"
  then show "max_program_len om \<le> max_program_len om1"
    by (simp add: set_max_program_len_grows)
next
  assume "get_port_program_mapping env cs om sb b lo dns rx = (evs2, om2, r2)"
  then show "max_program_len om \<le> max_program_len om2" by (rule pass_grows)
next
  assume "main_loop a p1 om = (evs3, om3, r3) \<and> main_loop a (p1 @ p2) om = (evs4, om4, r4)"
  then show "max_program_len om \<le> max_program_len om3"
    using main_loop_grows by blast
next
  assume "main_loop a p1 om = (evs3, om3, r3) \<and> main_loop a (p1 @ p2) om = (evs4, om4, r4)"
  then show "max_program_len om3 \<le> max_program_len om4"
    using main_loop_prefix_grows by blast
next
  assume m: "main c passes = (evs5, om5, r5)"
  show "30 \<le> max_program_len om5"
  proof (cases "parse_args c")
    case (Inl e)
    with m show ?thesis by (auto simp: main_def OutputManager_new_def)
  next
    case (Inr a)
    with m have "main_loop (select_sort a) passes OutputManager_new = (evs5, om5, r5)"
      by (simp add: main_def)
    from main_loop_grows[OF this] show ?thesis by (simp add: OutputManager_new_def)
  qed
qed


theorem max_program_len_never_shrinks_witness:
  "set_max_program_len (PyStr ''com.example.background-synchronisation-agent'') OutputManager_new
     = Inr (OutputManager_new\<lparr>max_program_len := 44\<rparr>) \<and>
   max_program_len OutputManager_new \<le> max_program_len (OutputManager_new\<lparr>max_program_len := 44\<rparr>) \<and>
   30 \<le> max_program_len (fst (snd (main bare_continuous [(example_env, [listen80, listen8080])])))"
  using max_program_len_never_shrinks
    [where v = "PyStr ''com.example.background-synchronisation-agent''" and om = OutputManager_new
       and ?om1.0 = "OutputManager_new\<lparr>max_program_len := 44\<rparr>"
       and c = bare_continuous and passes = "[(example_env, [listen80, listen8080])]"
       and ?evs5.0 = "fst (main bare_continuous [(example_env, [listen80, listen8080])])"
       and ?om5.0 = "fst (snd (main bare_continuous [(example_env, [listen80, listen8080])]))"
       and ?r5.0 = "snd (snd (main bare_continuous [(example_env, [listen80, listen8080])]))"]
  by (simp add: OutputManager_new_def)

section \<open>The sorter\<close>

lemma decorate_Inr:
  "decorate f xs = Inr ks \<Longrightarrow> map snd ks = xs \<and> (\<forall>p \<in> set ks. f (snd p) = Inr (fst p))"
proof (induction xs arbitrary: ks)
  case Nil
  then show ?case by simp
next
  case (Cons x xs)
  then show ?case by (auto split: sum.splits)
qed

lemma sorted_py_keys:
  assumes "sorted_py f xs = Inr out"
  shows "\<exists>ks. map f out = map Inr ks \<and> sorted ks"
proof -
  from assms obtain ds where d: "decorate f xs = Inr ds" and out: "out = map snd (sort_key fst ds)"
    by (auto simp: sorted_py_def split: sum.splits)
  from decorate_Inr[OF d] have "\<forall>p \<in> set (sort_key fst ds). f (snd p) = Inr (fst p)" by simp
  then have "map f out = map Inr (map fst (sort_key fst ds))"
    unfolding out by (induction "sort_key fst ds") auto
  moreover have "sorted (map fst (sort_key fst ds))" by simp
  ultimately show ?thesis by blast
qed

lemma sorted_py_elements:
  assumes "sorted_py f xs = Inr out"
  shows "set out = set xs \<and> length out = length xs"
proof -
  from assms obtain ds where d: "decorate f xs = Inr ds" and out: "out = map snd (sort_key fst ds)"
    by (auto simp: sorted_py_def split: sum.splits)
  from decorate_Inr[OF d] have m: "map snd ds = xs" by simp
  have "set out = snd ` set ds" unfolding out by simp
  also have "\<dots> = set (map snd ds)" by simp
  finally have "set out = set xs" using m by simp
  moreover have "length out = length (map snd ds)" unfolding out by simp
  ultimately show ?thesis using m by simp
qed

lemma sorted_py_stable:
  assumes "sorted_py f xs = Inr out"
  shows "filter (\<lambda>x. f x = Inr k) out = filter (\<lambda>x. f x = Inr k) xs"
proof -
  from assms obtain ds where d: "decorate f xs = Inr ds" and out: "out = map snd (sort_key fst ds)"
    by (auto simp: sorted_py_def split: sum.splits)
  from decorate_Inr[OF d] have m: "map snd ds = xs" and k: "\<forall>p \<in> set ds. f (snd p) = Inr (fst p)"
    by simp_all
  have "filter (\<lambda>x. f x = Inr k) out = map snd (filter (\<lambda>p. f (snd p) = Inr k) (sort_key fst ds))"
    unfolding out by (simp add: filter_map comp_def)
  also have "filter (\<lambda>p. f (snd p) = Inr k) (sort_key fst ds) = filter (\<lambda>p. fst p = k) (sort_key fst ds)"
    using k by (intro filter_cong) auto
  also have "\<dots> = filter (\<lambda>p. fst p = k) ds" by (rule sort_key_stable)
  also have "\<dots> = filter (\<lambda>p. f (snd p) = Inr k) ds"
    using k by (intro filter_cong) auto
  also have "map snd \<dots> = filter (\<lambda>x. f x = Inr k) (map snd ds)"
    by (simp add: filter_map comp_def)
  finally show ?thesis using m by simp
qed

lemma sorted_py_total:
  assumes "\<forall>x \<in> set xs. \<exists>k. f x = Inr k"
  shows "\<exists>out. sorted_py f xs = Inr out"
proof -
  from assms have "\<exists>ds. decorate f xs = Inr ds"
    by (induction xs) (auto split: sum.splits)
  then show ?thesis by (auto simp: sorted_py_def)
qed


lemma sort_bucket_returns:
  assumes "sort_by = ''PID'' \<longrightarrow> (\<forall>x \<in> set m. fst (snd x) \<noteq> None)"
  shows "\<exists>out. sort_bucket sort_by m = Inr out"
proof (cases "sort_by = ''PID''")
  case True
  with assms have "\<forall>x \<in> set m. \<exists>k. pid_key x = Inr k"
    by (auto simp: pid_key_def split: option.splits)
  from sorted_py_total[OF this] True show ?thesis by (simp add: sort_bucket_def)
next
  case False
  have "\<exists>out. sorted_py port_key m = Inr out"
    by (rule sorted_py_total) (simp add: port_key_def)
  moreover have "\<exists>out. sorted_py program_key m = Inr out"
    by (rule sorted_py_total) (simp add: program_key_def)
  ultimately show ?thesis using False by (auto simp: sort_bucket_def)
qed

lemma map_keys_transfer:
  "map f out = map Inr ks \<Longrightarrow> (\<And>x k. f x = Inr k \<Longrightarrow> g x = h k) \<Longrightarrow> map g out = map h ks"
proof (induction out arbitrary: ks)
  case Nil
  then show ?case by simp
next
  case (Cons x out)
  then obtain k ks' where ks: "ks = k # ks'" by (cases ks) auto
  with Cons.prems(1) have "f x = Inr k" "map f out = map Inr ks'" by simp_all
  with Cons.IH[of ks'] Cons.prems(2) ks show ?case by simp
qed

lemma sort_bucket_cases:
  "sort_bucket sort_by m =
     (if sort_by = ''PID'' then sorted_py pid_key m
      else if sort_by = ''Program'' then sorted_py program_key m
      else sorted_py port_key m)"
  by (simp add: sort_bucket_def)

lemma sorted_when_returned:
  assumes "sort_bucket sort_by m = Inr out"
  shows "(sort_by = ''PID'' \<longrightarrow>
            (\<exists>pids. map (\<lambda>x. fst (snd x)) out = map Some pids \<and> sorted pids)) \<and>
         (sort_by = ''Port'' \<longrightarrow> sorted (map fst out)) \<and>
         (sort_by = ''Program'' \<longrightarrow>
            sorted (map (\<lambda>x. case fst (snd (snd x)) of None \<Rightarrow> [] | Some s \<Rightarrow> s) out) \<and>
            (\<forall>i j. i < j \<and> j < length out \<and> fst (snd (snd (out ! j))) = None \<longrightarrow>
                   fst (snd (snd (out ! i))) \<in> {None, Some []})) \<and>
         set out = set m \<and> length out = length m"
proof (intro conjI impI)
  assume sb: "sort_by = ''PID''"
  with assms have "sorted_py pid_key m = Inr out" by (simp add: sort_bucket_cases)
  from sorted_py_keys[OF this] obtain ks where ks: "map pid_key out = map Inr ks" "sorted ks"
    by blast
  have "map (\<lambda>x. fst (snd x)) out = map Some ks"
    by (rule map_keys_transfer[OF ks(1)]) (auto simp: pid_key_def split: option.splits)
  with ks(2) show "\<exists>pids. map (\<lambda>x. fst (snd x)) out = map Some pids \<and> sorted pids" by blast
next
  assume sb: "sort_by = ''Port''"
  with assms have "sorted_py port_key m = Inr out" by (simp add: sort_bucket_cases)
  from sorted_py_keys[OF this] obtain ks where ks: "map port_key out = map Inr ks" "sorted ks"
    by blast
  have "map fst out = map (\<lambda>k. k) ks"
    by (rule map_keys_transfer[OF ks(1)]) (auto simp: port_key_def)
  with ks(2) show "sorted (map fst out)" by simp
next
  assume sb: "sort_by = ''Program''"
  with assms have "sorted_py program_key m = Inr out" by (simp add: sort_bucket_cases)
  from sorted_py_keys[OF this] obtain ks where ks: "map program_key out = map Inr ks" "sorted ks"
    by blast
  have "map (\<lambda>x. case fst (snd (snd x)) of None \<Rightarrow> [] | Some s \<Rightarrow> s) out = map (\<lambda>k. k) ks"
    by (rule map_keys_transfer[OF ks(1)]) (auto simp: program_key_def split: option.splits)
  with ks(2) show "sorted (map (\<lambda>x. case fst (snd (snd x)) of None \<Rightarrow> [] | Some s \<Rightarrow> s) out)"
    by simp
next
  assume sb: "sort_by = ''Program''"
  with assms have "sorted_py program_key m = Inr out" by (simp add: sort_bucket_cases)
  from sorted_py_keys[OF this] obtain ks where ks: "map program_key out = map Inr ks" "sorted ks"
    by blast
  let ?key = "\<lambda>x::nat \<times> entry. case fst (snd (snd x)) of None \<Rightarrow> [] | Some s \<Rightarrow> s"
  have "map ?key out = map (\<lambda>k. k) ks"
    by (rule map_keys_transfer[OF ks(1)]) (auto simp: program_key_def split: option.splits)
  with ks(2) have srt: "sorted (map ?key out)" by simp
  show "\<forall>i j. i < j \<and> j < length out \<and> fst (snd (snd (out ! j))) = None \<longrightarrow>
                   fst (snd (snd (out ! i))) \<in> {None, Some []}"
  proof (intro allI impI)
    fix i j
    assume h: "i < j \<and> j < length out \<and> fst (snd (snd (out ! j))) = None"
    then have "map ?key out ! i \<le> map ?key out ! j"
      using srt by (simp add: sorted_iff_nth_mono_less del: nth_map)
    with h have "?key (out ! i) \<le> []" by simp
    then show "fst (snd (snd (out ! i))) \<in> {None, Some []}"
      by (auto split: option.splits)
  qed
next
  from assms show "set out = set m"
    by (auto simp: sort_bucket_cases split: if_splits dest: sorted_py_elements)
next
  from assms show "length out = length m"
    by (auto simp: sort_bucket_cases split: if_splits dest: sorted_py_elements)
qed


lemma decorate_pid_key_raises:
  assumes "\<exists>x \<in> set m. fst (snd x) = None"
  shows "decorate pid_key m = Inl TypeError"
  using assms
proof (induction m)
  case Nil
  then show ?case by simp
next
  case (Cons x m)
  show ?case
  proof (cases "fst (snd x)")
    case None
    then show ?thesis by (simp add: pid_key_def)
  next
    case (Some i)
    with Cons.prems have "\<exists>y \<in> set m. fst (snd y) = None" by auto
    from Cons.IH[OF this] Some show ?thesis by (simp add: pid_key_def)
  qed
qed

lemma sort_bucket_raises:
  assumes "sort_by = ''PID''" and "\<exists>x \<in> set m. fst (snd x) = None"
  shows "sort_bucket sort_by m = Inl TypeError"
  using assms(1) decorate_pid_key_raises[OF assms(2)]
  by (simp add: sort_bucket_def sorted_py_def)

text \<open>
  Claim C6, as the code has it. The sorter returns on every bucket when the key is the
  port or the program name, and when the key is the process id exactly on the buckets in
  which every entry has one: an entry without a process id (a socket of another user)
  makes \<open>int(x[1][0])\<close> raise \<open>TypeError\<close>, and nothing is sorted. What the sorter returns
  is non-decreasing in the chosen key: by process id, by local port, or by program name,
  where an entry without a name counts as the empty string, so that only entries with an
  empty key precede it. The result has the elements of the bucket.
\<close>

theorem sorter_nondecreasing:
  "(sort_by = ''PID'' \<and> (\<exists>x \<in> set m. fst (snd x) = None) \<longrightarrow>
      sort_bucket sort_by m = Inl TypeError) \<and>
   (\<not> (sort_by = ''PID'' \<and> (\<exists>x \<in> set m. fst (snd x) = None)) \<longrightarrow>
      (\<exists>out. sort_bucket sort_by m = Inr out \<and>
         (sort_by = ''PID'' \<longrightarrow>
            (\<exists>pids. map (\<lambda>x. fst (snd x)) out = map Some pids \<and> sorted pids)) \<and>
         (sort_by = ''Port'' \<longrightarrow> sorted (map fst out)) \<and>
         (sort_by = ''Program'' \<longrightarrow>
            sorted (map (\<lambda>x. case fst (snd (snd x)) of None \<Rightarrow> [] | Some s \<Rightarrow> s) out) \<and>
            (\<forall>i j. i < j \<and> j < length out \<and> fst (snd (snd (out ! j))) = None \<longrightarrow>
                   fst (snd (snd (out ! i))) \<in> {None, Some []})) \<and>
         set out = set m \<and> length out = length m))"
proof (intro conjI impI)
  assume "sort_by = ''PID'' \<and> (\<exists>x \<in> set m. fst (snd x) = None)"
  then show "sort_bucket sort_by m = Inl TypeError"
    using sort_bucket_raises by blast
next
  assume "\<not> (sort_by = ''PID'' \<and> (\<exists>x \<in> set m. fst (snd x) = None))"
  then have "sort_by = ''PID'' \<longrightarrow> (\<forall>x \<in> set m. fst (snd x) \<noteq> None)" by simp
  from sort_bucket_returns[OF this] obtain out where out: "sort_bucket sort_by m = Inr out"
    by blast
  from sorted_when_returned[OF out] out
  show "\<exists>out. sort_bucket sort_by m = Inr out \<and>
         (sort_by = ''PID'' \<longrightarrow>
            (\<exists>pids. map (\<lambda>x. fst (snd x)) out = map Some pids \<and> sorted pids)) \<and>
         (sort_by = ''Port'' \<longrightarrow> sorted (map fst out)) \<and>
         (sort_by = ''Program'' \<longrightarrow>
            sorted (map (\<lambda>x. case fst (snd (snd x)) of None \<Rightarrow> [] | Some s \<Rightarrow> s) out) \<and>
            (\<forall>i j. i < j \<and> j < length out \<and> fst (snd (snd (out ! j))) = None \<longrightarrow>
                   fst (snd (snd (out ! i))) \<in> {None, Some []})) \<and>
         set out = set m \<and> length out = length m"
    by blast
qed

lemma sort_by_pid_example:
  "sort_bucket ''PID''
     [(80, Some 300, Some ''nginx'', None), (8080, Some 100, None, None),
      (443, Some 200, Some ''curl'', None)] =
   Inr [(8080, Some 100, None, None), (443, Some 200, Some ''curl'', None),
        (80, Some 300, Some ''nginx'', None)]"
  by (simp add: sort_bucket_def sorted_py_def pid_key_def)

lemma sort_by_port_example:
  "sort_bucket ''Port''
     [(8080, Some 100, None, None), (443, Some 200, Some ''curl'', None),
      (80, Some 300, Some ''nginx'', None)] =
   Inr [(80, Some 300, Some ''nginx'', None), (443, Some 200, Some ''curl'', None),
        (8080, Some 100, None, None)]"
  by (simp add: sort_bucket_def sorted_py_def port_key_def)

lemma sort_by_program_example:
  "sort_bucket ''Program''
     [(80, Some 100, Some ''nginx'', None), (8080, Some 300, None, None),
      (51000, Some 200, Some ''curl'', Some (''93.184.216.34'', 80))] =
   Inr [(8080, Some 300, None, None),
        (51000, Some 200, Some ''curl'', Some (''93.184.216.34'', 80)),
        (80, Some 100, Some ''nginx'', None)]"
  by (simp add: sort_bucket_def sorted_py_def program_key_def)

theorem sorter_nondecreasing_witness:
  "sort_bucket ''PID''
     [(80, Some 300, Some ''nginx'', None), (8080, Some 100, None, None),
      (443, Some 200, Some ''curl'', None)] =
   Inr [(8080, Some 100, None, None), (443, Some 200, Some ''curl'', None),
        (80, Some 300, Some ''nginx'', None)] \<and>
   map (\<lambda>x. fst (snd x))
     [(8080::nat, Some (100::int), None :: string option, None :: addr option),
      (443, Some 200, Some ''curl'', None), (80, Some 300, Some ''nginx'', None)] =
   map Some [100, 200, 300] \<and> sorted [100, 200, 300 :: int] \<and>
   sort_bucket ''Port''
     [(8080, Some 100, None, None), (443, Some 200, Some ''curl'', None),
      (80, Some 300, Some ''nginx'', None)] =
   Inr [(80, Some 300, Some ''nginx'', None), (443, Some 200, Some ''curl'', None),
        (8080, Some 100, None, None)] \<and>
   sorted (map fst
     [(80::nat, Some (300::int), Some ''nginx'', None :: addr option),
      (443, Some 200, Some ''curl'', None), (8080, Some 100, None, None)]) \<and>
   sort_bucket ''Program''
     [(80, Some 100, Some ''nginx'', None), (8080, Some 300, None, None),
      (51000, Some 200, Some ''curl'', Some (''93.184.216.34'', 80))] =
   Inr [(8080, Some 300, None, None),
        (51000, Some 200, Some ''curl'', Some (''93.184.216.34'', 80)),
        (80, Some 100, Some ''nginx'', None)] \<and>
   sorted (map (\<lambda>x. case fst (snd (snd x)) of None \<Rightarrow> [] | Some s \<Rightarrow> s)
     [(8080, Some 300, None, None),
      (51000, Some 200, Some ''curl'', Some (''93.184.216.34'', 80)),
      (80::nat, Some (100::int), Some ''nginx'', None :: addr option)]) \<and>
   sort_bucket ''PID''
     [(80, Some 100, Some ''nginx'', None), (5353, None, Some ''python3'', None)] =
   Inl TypeError"
  using
    sorter_nondecreasing[of "''PID''"
      "[(80, Some 300, Some ''nginx'', None), (8080, Some 100, None, None),
        (443, Some 200, Some ''curl'', None)]"]
    sorter_nondecreasing[of "''Port''"
      "[(8080, Some 100, None, None), (443, Some 200, Some ''curl'', None),
        (80, Some 300, Some ''nginx'', None)]"]
    sorter_nondecreasing[of "''Program''"
      "[(80, Some 100, Some ''nginx'', None), (8080, Some 300, None, None),
        (51000, Some 200, Some ''curl'', Some (''93.184.216.34'', 80))]"]
    sorter_nondecreasing[of "''PID''"
      "[(80, Some 100, Some ''nginx'', None), (5353, None, Some ''python3'', None)]"]
    sort_by_pid_example sort_by_port_example sort_by_program_example
  by simp

theorem sorter_nondecreasing_counterexample:
  "connection_loop unowned_env False NoPattern [listen80, unowned5353]
     (OutputManager_new, [], []) =
     ((OutputManager_new,
       [(80, Some 100, Some ''nginx'', None), (5353, None, Some ''python3'', None)], []),
      Inr ()) \<and>
   sort_bucket ''PID''
     [(80, Some 100, Some ''nginx'', None), (5353, None, Some ''python3'', None)] =
     Inl TypeError \<and>
   get_port_program_mapping unowned_env [listen80, unowned5353] OutputManager_new ''PID''
     False False False None = ([], OutputManager_new, Inl TypeError)"
  by (simp add: get_port_program_mapping_def compile_pattern_def set_bare_def
        sort_bucket_def sorted_py_def pid_key_def excluded_def process_connection_def
        get_program_by_pid_def name_value_def unowned_env_def example_env_def listen80_def
        unowned5353_def OutputManager_new_def)

text \<open>
  Claim C7, as the code has it. Entries that compare equal on the sort key keep the order
  they have in the bucket, which is the order in which their ports were first inserted and
  not the order of the ports: for every key value, the entries with that key are the same
  sequence before and after sorting.
\<close>

theorem sorter_ties_keep_bucket_order:
  assumes "sort_bucket sort_by m = Inr out"
  shows "(sort_by = ''PID'' \<longrightarrow>
            filter (\<lambda>x. fst (snd x) = Some i) out = filter (\<lambda>x. fst (snd x) = Some i) m) \<and>
         (sort_by = ''Program'' \<longrightarrow>
            filter (\<lambda>x. (case fst (snd (snd x)) of None \<Rightarrow> [] | Some s \<Rightarrow> s) = name) out =
            filter (\<lambda>x. (case fst (snd (snd x)) of None \<Rightarrow> [] | Some s \<Rightarrow> s) = name) m) \<and>
         (sort_by \<noteq> ''PID'' \<and> sort_by \<noteq> ''Program'' \<longrightarrow>
            filter (\<lambda>x. fst x = port) out = filter (\<lambda>x. fst x = port) m)"
proof (intro conjI impI)
  assume "sort_by = ''PID''"
  with assms have "sorted_py pid_key m = Inr out" by (simp add: sort_bucket_cases)
  from sorted_py_stable[OF this, of i]
  have "filter (\<lambda>x. pid_key x = Inr i) out = filter (\<lambda>x. pid_key x = Inr i) m" .
  moreover have "\<And>x. pid_key x = Inr i \<longleftrightarrow> fst (snd x) = Some i"
    by (auto simp: pid_key_def split: option.splits)
  ultimately show "filter (\<lambda>x. fst (snd x) = Some i) out = filter (\<lambda>x. fst (snd x) = Some i) m"
    by simp
next
  assume "sort_by = ''Program''"
  with assms have "sorted_py program_key m = Inr out" by (simp add: sort_bucket_cases)
  from sorted_py_stable[OF this, of name]
  have "filter (\<lambda>x. program_key x = Inr name) out = filter (\<lambda>x. program_key x = Inr name) m" .
  moreover have "\<And>x. program_key x = Inr name \<longleftrightarrow>
      (case fst (snd (snd x)) of None \<Rightarrow> [] | Some s \<Rightarrow> s) = name"
    by (auto simp: program_key_def split: option.splits)
  ultimately show "filter (\<lambda>x. (case fst (snd (snd x)) of None \<Rightarrow> [] | Some s \<Rightarrow> s) = name) out =
            filter (\<lambda>x. (case fst (snd (snd x)) of None \<Rightarrow> [] | Some s \<Rightarrow> s) = name) m"
    by simp
next
  assume "sort_by \<noteq> ''PID'' \<and> sort_by \<noteq> ''Program''"
  with assms have "sorted_py port_key m = Inr out" by (simp add: sort_bucket_cases)
  from sorted_py_stable[OF this, of port]
  show "filter (\<lambda>x. fst x = port) out = filter (\<lambda>x. fst x = port) m"
    by (simp add: port_key_def)
qed

lemma sort_pid_example:
  "sort_bucket ''PID'' [(443, Some 100, Some ''nginx'', None), (80, Some 100, Some ''nginx'', None)] =
   Inr [(443, Some 100, Some ''nginx'', None), (80, Some 100, Some ''nginx'', None)]"
  by (simp add: sort_bucket_def sorted_py_def pid_key_def)

theorem sorter_ties_keep_bucket_order_witness:
  "sort_bucket ''PID'' [(443, Some 100, Some ''nginx'', None), (80, Some 100, Some ''nginx'', None)] =
     Inr [(443, Some 100, Some ''nginx'', None), (80, Some 100, Some ''nginx'', None)] \<and>
   filter (\<lambda>x. fst (snd x) = Some 100)
     [(443::nat, Some (100::int), Some ''nginx'', None :: addr option), (80, Some 100, Some ''nginx'', None)] =
   [(443, Some 100, Some ''nginx'', None), (80, Some 100, Some ''nginx'', None)]"
  using sorter_ties_keep_bucket_order[OF sort_pid_example, of 100] sort_pid_example by simp

theorem sorter_ties_counterexample:
  "connection_loop example_env False NoPattern [listen443, listen80] (OutputManager_new, [], []) =
     ((OutputManager_new,
       [(443, Some 100, Some ''nginx'', None), (80, Some 100, Some ''nginx'', None)], []), Inr ()) \<and>
   sort_bucket ''PID'' [(443, Some 100, Some ''nginx'', None), (80, Some 100, Some ''nginx'', None)] =
     Inr [(443, Some 100, Some ''nginx'', None), (80, Some 100, Some ''nginx'', None)] \<and>
   \<not> sorted (map fst [(443::nat, Some (100::int), Some ''nginx'', None :: addr option),
                       (80, Some 100, Some ''nginx'', None)])"
  by (simp add: sort_bucket_def sorted_py_def pid_key_def excluded_def process_connection_def
        get_program_by_pid_def name_value_def example_env_def listen80_def listen443_def
        OutputManager_new_def)

section \<open>The default sort key and two passes that raise\<close>

lemma port_order_sorted:
  assumes "sort_bucket ''Port'' m = Inr out"
  shows "sorted (map fst out) \<and> set out = set m"
proof -
  from assms have sp: "sorted_py port_key m = Inr out" by (simp add: sort_bucket_def)
  from sorted_py_keys[OF sp] obtain ks where ks: "map port_key out = map Inr ks" "sorted ks"
    by blast
  have "map fst out = map (\<lambda>k. k) ks"
    by (rule map_keys_transfer[OF ks(1)]) (auto simp: port_key_def)
  with ks(2) sorted_py_elements[OF sp] show ?thesis by simp
qed

text \<open>
  Claim C5, as the code has it. A sort key that is none of \<open>PID\<close>, \<open>Port\<close>, \<open>Program\<close>
  makes a pass order both buckets by ascending local port. On the command line the key is
  \<open>Program\<close> when \<open>--sort\<close> is omitted, unless \<open>-i\<close> or \<open>-p\<close> selects \<open>PID\<close> or
  \<open>Port\<close>, and a value outside the three choices ends the program in the argument parser.
\<close>

theorem sort_key_default:
  "(sort_by \<notin> {''PID'', ''Port'', ''Program''} \<longrightarrow>
      sort_bucket sort_by m = sort_bucket ''Port'' m \<and>
      (\<exists>out. sort_bucket sort_by m = Inr out \<and> sorted (map fst out) \<and> set out = set m)) \<and>
   (opt_sort c = None \<longrightarrow>
      (\<exists>a. parse_args c = Inr a \<and>
           arg_sort (select_sort a) =
             (if opt_pid c then ''PID'' else if opt_port c then ''Port'' else ''Program''))) \<and>
   (opt_sort c = Some s \<and> s \<notin> {''PID'', ''Port'', ''Program''} \<longrightarrow> parse_args c = Inl SystemExit)"
proof (intro conjI impI)
  assume u: "sort_by \<notin> {''PID'', ''Port'', ''Program''}"
  then show eq: "sort_bucket sort_by m = sort_bucket ''Port'' m"
    by (simp add: sort_bucket_def)
  have "\<exists>out. sorted_py port_key m = Inr out"
    by (rule sorted_py_total) (simp add: port_key_def)
  then obtain out where o: "sort_bucket ''Port'' m = Inr out"
    by (auto simp: sort_bucket_def)
  from port_order_sorted[OF o] have "sorted (map fst out) \<and> set out = set m" by simp
  with o eq show "\<exists>out. sort_bucket sort_by m = Inr out \<and> sorted (map fst out) \<and> set out = set m"
    by auto
next
  assume "opt_sort c = None"
  then show "\<exists>a. parse_args c = Inr a \<and>
           arg_sort (select_sort a) =
             (if opt_pid c then ''PID'' else if opt_port c then ''Port'' else ''Program'')"
    by (simp add: parse_args_def select_sort_def)
next
  assume "opt_sort c = Some s \<and> s \<notin> {''PID'', ''Port'', ''Program''}"
  then show "parse_args c = Inl SystemExit"
    by (simp add: parse_args_def)
qed


lemma sort_unknown_example:
  "sort_bucket ''Size'' [(443, Some 100, Some ''nginx'', None), (80, Some 100, Some ''nginx'', None)] =
     Inr [(80, Some 100, Some ''nginx'', None), (443, Some 100, Some ''nginx'', None)]"
  by (simp add: sort_bucket_def sorted_py_def port_key_def)

theorem sort_key_default_witness:
  "''Size'' \<notin> {''PID'', ''Port'', ''Program''} \<and>
   sort_bucket ''Size'' [(443, Some 100, Some ''nginx'', None), (80, Some 100, Some ''nginx'', None)] =
     sort_bucket ''Port'' [(443, Some 100, Some ''nginx'', None), (80, Some 100, Some ''nginx'', None)] \<and>
   sort_bucket ''Size'' [(443, Some 100, Some ''nginx'', None), (80, Some 100, Some ''nginx'', None)] =
     Inr [(80, Some 100, Some ''nginx'', None), (443, Some 100, Some ''nginx'', None)] \<and>
   opt_sort no_options = None \<and>
   opt_sort (no_options\<lparr>opt_sort := Some ''Size''\<rparr>) = Some ''Size'' \<and>
   parse_args (no_options\<lparr>opt_sort := Some ''Size''\<rparr>) = Inl SystemExit"
  using sort_key_default[of "''Size''"
          "[(443, Some 100, Some ''nginx'', None), (80, Some 100, Some ''nginx'', None)]"
          "no_options\<lparr>opt_sort := Some ''Size''\<rparr>" "''Size''"]
        sort_unknown_example
  by (simp add: no_options_def)

theorem sort_key_default_counterexample:
  "parse_args no_options =
     Inr \<lparr>arg_pid = False, arg_port = False, arg_sort = ''Program'', arg_bare = False,
          arg_listening = False, arg_dns = False, arg_regex = None, arg_continuous = None\<rparr> \<and>
   arg_sort (select_sort
     \<lparr>arg_pid = False, arg_port = False, arg_sort = ''Program'', arg_bare = False,
      arg_listening = False, arg_dns = False, arg_regex = None, arg_continuous = None\<rparr>) = ''Program'' \<and>
   connection_loop example_env False NoPattern [listen80, listen8080] (OutputManager_new, [], []) =
     ((OutputManager_new\<lparr>max_program_len := 44\<rparr>,
       [(80, Some 100, Some ''nginx'', None),
        (8080, Some 300, Some ''com.example.background-synchronisation-agent'', None)], []), Inr ()) \<and>
   sort_bucket ''Program''
     [(80, Some 100, Some ''nginx'', None),
      (8080, Some 300, Some ''com.example.background-synchronisation-agent'', None)] =
     Inr [(8080, Some 300, Some ''com.example.background-synchronisation-agent'', None),
          (80, Some 100, Some ''nginx'', None)] \<and>
   \<not> sorted (map fst
     [(8080::nat, Some (300::int), Some ''com.example.background-synchronisation-agent'', None :: addr option),
      (80, Some 100, Some ''nginx'', None)])"
  by (simp add: parse_args_def select_sort_def no_options_def sort_bucket_def sorted_py_def
        program_key_def excluded_def process_connection_def get_program_by_pid_def name_value_def
        example_env_def listen80_def listen8080_def OutputManager_new_def)

text \<open>
  Claim C2, evaluated on the code. With the malformed expression \<open>(\<close> and one listening
  connection, the pass prints the error of the compiler and then ends with
  \<open>UnboundLocalError\<close>: no connection is processed and no section is printed.
\<close>

theorem malformed_filter_raises:
  "get_port_program_mapping example_env [listen80] OutputManager_new ''Port'' False False False
     (Some ''('') =
   ([PrintError ''Error: missing ), unterminated subpattern at position 0''],
    OutputManager_new, Inl UnboundLocalError)"
  by (simp add: get_port_program_mapping_def compile_pattern_def example_env_def excluded_def
        listen80_def set_bare_def OutputManager_new_def)

text \<open>
  Claim C3, evaluated on the code. A listening connection whose process has exited (the
  name lookup returns \<open>None\<close>) ends the pass with \<open>TypeError\<close>, without a filter expression
  (in \<open>set_max_program_len\<close>) and with one that does not match the connection's rendering
  (in \<open>pattern.search\<close>); nothing is printed.
\<close>

theorem exited_process_raises:
  "get_port_program_mapping example_env [gone4242] OutputManager_new ''Port'' False False False None =
     ([], OutputManager_new, Inl TypeError) \<and>
   get_port_program_mapping example_env [gone4242] OutputManager_new ''Port'' False False False
     (Some ''ssh'') = ([], OutputManager_new, Inl TypeError)"
  by (simp add: get_port_program_mapping_def compile_pattern_def example_env_def excluded_def
        gone4242_def set_bare_def OutputManager_new_def process_connection_def
        get_program_by_pid_def name_value_def example_str_def str_nat.simps digit_char_def
        str_int_def sublist_code)

section \<open>The classifier\<close>

lemma loop_step:
  assumes "\<not> (lo \<and> status c \<noteq> ''LISTEN'')"
  shows "connection_loop env lo pat (c # cs) (om, lm, nm) =
     (case excluded env pat c of
        Inl e \<Rightarrow> ((om, lm, nm), Inl e)
      | Inr True \<Rightarrow> connection_loop env lo pat cs (om, lm, nm)
      | Inr False \<Rightarrow>
          (case process_connection env c lm nm of
             (lm', nm') \<Rightarrow>
               (case set_max_program_len (name_value (get_program_by_pid env (pid c))) om of
                  Inl e \<Rightarrow> ((om, lm', nm'), Inl e)
                | Inr om' \<Rightarrow> connection_loop env lo pat cs (om', lm', nm'))))"
proof -
  from assms have "(lo \<and> status c \<noteq> ''LISTEN'') = False" by simp
  then show ?thesis by (simp only: connection_loop.simps if_False)
qed

lemma loop_skip:
  assumes "\<not> routed env lo pat c"
    and "connection_loop env lo pat (c # cs) (om, lm, nm) = (st, Inr ())"
  shows "connection_loop env lo pat cs (om, lm, nm) = (st, Inr ())"
proof (cases "lo \<and> status c \<noteq> ''LISTEN''")
  case True
  with assms(2) show ?thesis by simp
next
  case False
  with assms(1) have ne: "excluded env pat c \<noteq> Inr False" by (simp add: routed_def)
  note st = assms(2)[unfolded loop_step[OF False]]
  show ?thesis
  proof (cases "excluded env pat c")
    case (Inl e)
    with st show ?thesis by simp
  next
    case (Inr b)
    with ne have "b" by simp
    with Inr st show ?thesis by simp
  qed
qed

lemma loop_routed:
  assumes "routed env lo pat c"
    and "connection_loop env lo pat (c # cs) (om, lm, nm) = (st, Inr ())"
  shows "\<exists>s om1. get_program_by_pid env (pid c) = Some s \<and>
           max_program_len om1 = max (max_program_len om) (int (length s)) \<and>
           connection_loop env lo pat cs
             (om1,
              if status c = ''LISTEN''
                then AList.update (fst (item_of env c)) (snd (item_of env c)) lm else lm,
              if status c = ''LISTEN''
                then nm else AList.update (fst (item_of env c)) (snd (item_of env c)) nm)
           = (st, Inr ())"
proof -
  from assms(1) have f: "\<not> (lo \<and> status c \<noteq> ''LISTEN'')" and x: "excluded env pat c = Inr False"
    by (simp_all add: routed_def)
  note st = assms(2)[unfolded loop_step[OF f]]
  show ?thesis
  proof (cases "get_program_by_pid env (pid c)")
    case None
    with x st show ?thesis
      by (auto simp: name_value_def split: prod.splits)
  next
    case (Some s)
    let ?om1 = "if int (length s) > max_program_len om
                then om\<lparr>max_program_len := int (length s)\<rparr> else om"
    have m: "max_program_len ?om1 = max (max_program_len om) (int (length s))" by simp
    from Some x st have
      "connection_loop env lo pat cs
         (?om1,
          if status c = ''LISTEN''
            then AList.update (fst (item_of env c)) (snd (item_of env c)) lm else lm,
          if status c = ''LISTEN''
            then nm else AList.update (fst (item_of env c)) (snd (item_of env c)) nm)
       = (st, Inr ())"
      by (auto simp: name_value_def process_connection_def item_of_def Let_def
               split: prod.splits if_splits)
    with Some m show ?thesis by blast
  qed
qed

lemma loop_buckets:
  "connection_loop env lo pat cs (om, lm, nm) = ((om', lm', nm'), Inr ()) \<Longrightarrow>
     lm' = fold (\<lambda>c. AList.update (fst (item_of env c)) (snd (item_of env c)))
             [c \<leftarrow> cs. routed env lo pat c \<and> status c = ''LISTEN''] lm \<and>
     nm' = fold (\<lambda>c. AList.update (fst (item_of env c)) (snd (item_of env c)))
             [c \<leftarrow> cs. routed env lo pat c \<and> status c \<noteq> ''LISTEN''] nm \<and>
     max_program_len om' =
       fold (\<lambda>c w. max w (name_width env c)) [c \<leftarrow> cs. routed env lo pat c] (max_program_len om) \<and>
     (\<forall>c \<in> set cs. routed env lo pat c \<longrightarrow> get_program_by_pid env (pid c) \<noteq> None)"
proof (induction cs arbitrary: om lm nm)
  case Nil
  then show ?case by simp
next
  case (Cons c cs)
  show ?case
  proof (cases "routed env lo pat c")
    case False
    from Cons.IH[OF loop_skip[OF False Cons.prems]] False show ?thesis by simp
  next
    case True
    from loop_routed[OF True Cons.prems] obtain s om1 where
      s: "get_program_by_pid env (pid c) = Some s" and
      m: "max_program_len om1 = max (max_program_len om) (int (length s))" and
      l: "connection_loop env lo pat cs
             (om1,
              if status c = ''LISTEN''
                then AList.update (fst (item_of env c)) (snd (item_of env c)) lm else lm,
              if status c = ''LISTEN''
                then nm else AList.update (fst (item_of env c)) (snd (item_of env c)) nm)
           = ((om', lm', nm'), Inr ())"
      by blast
    from s have w: "name_width env c = int (length s)" by (simp add: name_width_def)
    from Cons.IH[OF l] True s m w show ?thesis by simp
  qed
qed

lemma fold_max_Max:
  "fold (\<lambda>c w. max w (g c)) xs (a::int) = Max (insert a (g ` set xs))"
proof (induction xs arbitrary: a)
  case Nil
  then show ?case by simp
next
  case (Cons x xs)
  have "Max (insert (max a (g x)) (g ` set xs)) = Max (insert a (insert (g x) (g ` set xs)))"
    by (cases "g ` set xs = {}") (simp_all add: max.assoc)
  with Cons show ?case by simp
qed

lemma fold_update_keys:
  "fst ` set (fold (\<lambda>c. AList.update (k c) (v c)) xs m) = fst ` set m \<union> k ` set xs"
  by (induction xs arbitrary: m) (auto simp: dom_update)

lemma fold_update_distinct:
  "distinct (map fst m) \<Longrightarrow> distinct (map fst (fold (\<lambda>c. AList.update (k c) (v c)) xs m))"
  by (induction xs arbitrary: m) (simp_all add: distinct_update)

lemma fold_update_map_of:
  "map_of (fold (\<lambda>c. AList.update (k c) (v c)) xs m) =
     map_of (rev (map (\<lambda>c. (k c, v c)) xs) @ m)"
proof (induction xs arbitrary: m)
  case Nil
  then show ?case by simp
next
  case (Cons x xs)
  have "map_of (AList.update (k x) (v x) m) = map_of ((k x, v x) # m)"
    by (simp add: update_conv')
  then have "map_of (rev (map (\<lambda>c. (k c, v c)) xs) @ AList.update (k x) (v x) m) =
             map_of (rev (map (\<lambda>c. (k c, v c)) xs) @ (k x, v x) # m)"
    by (simp only: map_of_append)
  with Cons[of "AList.update (k x) (v x) m"] show ?case by simp
qed

lemma fold_update_last:
  assumes "xs = pre @ c # post" and "\<forall>d \<in> set post. k d \<noteq> k c"
  shows "map_of (fold (\<lambda>c. AList.update (k c) (v c)) xs m) (k c) = Some (v c)"
proof -
  from assms(2) have "map_of (rev (map (\<lambda>c. (k c, v c)) post)) (k c) = None"
    by (auto simp: map_of_eq_None_iff image_iff)
  then show ?thesis
    unfolding fold_update_map_of assms(1) by (simp add: map_add_def)
qed

lemma fold_update_origin:
  assumes "(p, e) \<in> set (fold (\<lambda>c. AList.update (k c) (v c)) xs [])"
  shows "\<exists>c \<in> set xs. k c = p \<and> v c = e"
proof -
  have "distinct (map fst (fold (\<lambda>c. AList.update (k c) (v c)) xs []))"
    by (rule fold_update_distinct) simp
  with assms have "map_of (fold (\<lambda>c. AList.update (k c) (v c)) xs []) p = Some e" by simp
  then have "map_of (rev (map (\<lambda>c. (k c, v c)) xs)) p = Some e"
    by (simp add: fold_update_map_of)
  then have "(p, e) \<in> set (rev (map (\<lambda>c. (k c, v c)) xs))" by (rule map_of_SomeD)
  then show ?thesis by auto
qed


text \<open>
  Claim C1, as the code has it. When the loop over the connections returns, every routed
  connection has been written to one bucket only, the listening one iff its status is
  \<open>LISTEN\<close>: the ports of a bucket are the ports of the routed connections of its kind,
  every item of a bucket is the item of such a connection, and a bucket holds each port
  once, with the item of the last routed connection of its kind on that port (a later
  connection on the same port replaces an earlier one). With the listening-only flag the
  non-listening bucket is empty.
\<close>

theorem classifier_buckets:
  assumes "connection_loop env lo pat cs (om, [], []) = ((om', lm, nm), Inr ())"
  shows "fst ` set lm =
           {snd (laddr c) | c. c \<in> set cs \<and> routed env lo pat c \<and> status c = ''LISTEN''} \<and>
         fst ` set nm =
           {snd (laddr c) | c. c \<in> set cs \<and> routed env lo pat c \<and> status c \<noteq> ''LISTEN''} \<and>
         distinct (map fst lm) \<and> distinct (map fst nm) \<and>
         (\<forall>x \<in> set lm. \<exists>c \<in> set cs.
            routed env lo pat c \<and> status c = ''LISTEN'' \<and> item_of env c = x) \<and>
         (\<forall>x \<in> set nm. \<exists>c \<in> set cs.
            routed env lo pat c \<and> status c \<noteq> ''LISTEN'' \<and> item_of env c = x) \<and>
         (\<forall>pre c post.
            cs = pre @ c # post \<and> routed env lo pat c \<and>
            (\<forall>d \<in> set post. routed env lo pat d \<and>
                              (status d = ''LISTEN'') = (status c = ''LISTEN'')
                            \<longrightarrow> snd (laddr d) \<noteq> snd (laddr c))
            \<longrightarrow> (if status c = ''LISTEN'' then item_of env c \<in> set lm
                 else item_of env c \<in> set nm)) \<and>
         (lo \<longrightarrow> nm = [])"
proof -
  let ?k = "\<lambda>c. fst (item_of env c)" and ?v = "\<lambda>c. snd (item_of env c)"
  let ?L = "[c \<leftarrow> cs. routed env lo pat c \<and> status c = ''LISTEN'']"
  let ?N = "[c \<leftarrow> cs. routed env lo pat c \<and> status c \<noteq> ''LISTEN'']"
  from loop_buckets[OF assms] have
    lm: "lm = fold (\<lambda>c. AList.update (?k c) (?v c)) ?L []" and
    nm: "nm = fold (\<lambda>c. AList.update (?k c) (?v c)) ?N []" by simp_all
  have k: "\<And>c. ?k c = snd (laddr c)" by (simp add: item_of_def)
  have "fst ` set lm = ?k ` set ?L" unfolding lm by (simp add: fold_update_keys)
  then have c1: "fst ` set lm =
           {snd (laddr c) | c. c \<in> set cs \<and> routed env lo pat c \<and> status c = ''LISTEN''}"
    by (auto simp: k)
  have "fst ` set nm = ?k ` set ?N" unfolding nm by (simp add: fold_update_keys)
  then have c2: "fst ` set nm =
           {snd (laddr c) | c. c \<in> set cs \<and> routed env lo pat c \<and> status c \<noteq> ''LISTEN''}"
    by (auto simp: k)
  have c3: "distinct (map fst lm)" unfolding lm by (rule fold_update_distinct) simp
  have c4: "distinct (map fst nm)" unfolding nm by (rule fold_update_distinct) simp
  have c5: "\<forall>x \<in> set lm. \<exists>c \<in> set cs.
            routed env lo pat c \<and> status c = ''LISTEN'' \<and> item_of env c = x"
  proof
    fix x assume "x \<in> set lm"
    then have "(fst x, snd x) \<in> set (fold (\<lambda>c. AList.update (?k c) (?v c)) ?L [])"
      by (simp add: lm)
    from fold_update_origin[OF this] obtain c where
      "c \<in> set ?L" "?k c = fst x" "?v c = snd x" by blast
    then show "\<exists>c \<in> set cs. routed env lo pat c \<and> status c = ''LISTEN'' \<and> item_of env c = x"
      by (auto simp: prod_eq_iff)
  qed
  have c6: "\<forall>x \<in> set nm. \<exists>c \<in> set cs.
            routed env lo pat c \<and> status c \<noteq> ''LISTEN'' \<and> item_of env c = x"
  proof
    fix x assume "x \<in> set nm"
    then have "(fst x, snd x) \<in> set (fold (\<lambda>c. AList.update (?k c) (?v c)) ?N [])"
      by (simp add: nm)
    from fold_update_origin[OF this] obtain c where
      "c \<in> set ?N" "?k c = fst x" "?v c = snd x" by blast
    then show "\<exists>c \<in> set cs. routed env lo pat c \<and> status c \<noteq> ''LISTEN'' \<and> item_of env c = x"
      by (auto simp: prod_eq_iff)
  qed
  have c7: "\<forall>pre c post.
            cs = pre @ c # post \<and> routed env lo pat c \<and>
            (\<forall>d \<in> set post. routed env lo pat d \<and>
                              (status d = ''LISTEN'') = (status c = ''LISTEN'')
                            \<longrightarrow> snd (laddr d) \<noteq> snd (laddr c))
            \<longrightarrow> (if status c = ''LISTEN'' then item_of env c \<in> set lm
                 else item_of env c \<in> set nm)"
  proof (intro allI impI)
    fix pre c post
    assume h: "cs = pre @ c # post \<and> routed env lo pat c \<and>
            (\<forall>d \<in> set post. routed env lo pat d \<and>
                              (status d = ''LISTEN'') = (status c = ''LISTEN'')
                            \<longrightarrow> snd (laddr d) \<noteq> snd (laddr c))"
    show "if status c = ''LISTEN'' then item_of env c \<in> set lm else item_of env c \<in> set nm"
    proof (cases "status c = ''LISTEN''")
      case True
      let ?P = "\<lambda>c. routed env lo pat c \<and> status c = ''LISTEN''"
      from h True have sp: "?L = filter ?P pre @ c # filter ?P post" by simp
      from h True have "\<forall>d \<in> set (filter ?P post). ?k d \<noteq> ?k c" by (auto simp: k)
      from fold_update_last[OF sp this, of ?v "[]"]
      have "map_of lm (?k c) = Some (?v c)" by (simp add: lm)
      then have "(?k c, ?v c) \<in> set lm" by (rule map_of_SomeD)
      with True show ?thesis by simp
    next
      case False
      let ?P = "\<lambda>c. routed env lo pat c \<and> status c \<noteq> ''LISTEN''"
      from h False have sp: "?N = filter ?P pre @ c # filter ?P post" by simp
      from h False have "\<forall>d \<in> set (filter ?P post). ?k d \<noteq> ?k c" by (auto simp: k)
      from fold_update_last[OF sp this, of ?v "[]"]
      have "map_of nm (?k c) = Some (?v c)" by (simp add: nm)
      then have "(?k c, ?v c) \<in> set nm" by (rule map_of_SomeD)
      with False show ?thesis by simp
    qed
  qed
  have c8: "lo \<longrightarrow> nm = []"
  proof
    assume lo
    then have "?N = []" by (auto simp: routed_def filter_empty_conv)
    then show "nm = []" by (simp add: nm)
  qed
  from c1 c2 c3 c4 c5 c6 c7 c8 show ?thesis by blast
qed


lemma loop_example:
  "connection_loop example_env False NoPattern [listen80, listen443, estab51000]
     (OutputManager_new, [], []) =
   ((OutputManager_new,
     [(80, Some 100, Some ''nginx'', None), (443, Some 100, Some ''nginx'', None)],
     [(51000, Some 200, Some ''curl'', Some (''93.184.216.34'', 80))]), Inr ())"
  by (simp add: excluded_def process_connection_def get_program_by_pid_def name_value_def
        example_env_def listen80_def listen443_def estab51000_def OutputManager_new_def)

theorem classifier_buckets_witness:
  "connection_loop example_env False NoPattern [listen80, listen443, estab51000]
     (OutputManager_new, [], []) =
   ((OutputManager_new,
     [(80, Some 100, Some ''nginx'', None), (443, Some 100, Some ''nginx'', None)],
     [(51000, Some 200, Some ''curl'', Some (''93.184.216.34'', 80))]), Inr ()) \<and>
   fst ` set [(80::nat, Some (100::int), Some ''nginx'', None :: addr option),
             (443, Some 100, Some ''nginx'', None)] =
     {snd (laddr c) | c. c \<in> set [listen80, listen443, estab51000] \<and>
        routed example_env False NoPattern c \<and> status c = ''LISTEN''} \<and>
   distinct (map fst [(80::nat, Some (100::int), Some ''nginx'', None :: addr option),
                      (443, Some 100, Some ''nginx'', None)])"
  using classifier_buckets[OF loop_example] loop_example by blast

theorem classifier_buckets_counterexample:
  "connection_loop example_env False NoPattern [estab443a, estab443b] (OutputManager_new, [], []) =
     ((OutputManager_new, [],
       [(443, Some 100, Some ''nginx'', Some (''203.0.113.9'', 50002))]), Inr ()) \<and>
   routed example_env False NoPattern estab443a \<and>
   item_of example_env estab443a = (443, Some 100, Some ''nginx'', Some (''198.51.100.7'', 50001)) \<and>
   item_of example_env estab443a \<notin> set [] \<and>
   item_of example_env estab443a \<notin>
     set [(443, Some 100, Some ''nginx'', Some (''203.0.113.9'', 50002))]"
  by (simp add: excluded_def process_connection_def get_program_by_pid_def name_value_def
        example_env_def estab443a_def estab443b_def OutputManager_new_def routed_def item_of_def)

text \<open>
  Claim C9, as the code has it. The width report comes after the filter test, for routed
  connections only: when the loop returns, the width is the largest of the width before the
  loop and the name lengths of the routed connections, each of which has a resolved name no
  longer than the new width. A connection that the filter excludes reports nothing.
\<close>

theorem width_reports_follow_filter:
  assumes "connection_loop env lo pat cs (om, lm, nm) = ((om', lm', nm'), Inr ())"
  shows "max_program_len om' =
           Max (insert (max_program_len om)
                  (name_width env ` {c \<in> set cs. routed env lo pat c})) \<and>
         (\<forall>c \<in> set cs. routed env lo pat c \<longrightarrow>
            (\<exists>s. get_program_by_pid env (pid c) = Some s \<and> int (length s) \<le> max_program_len om'))"
proof -
  from loop_buckets[OF assms] have
    w: "max_program_len om' =
         fold (\<lambda>c w. max w (name_width env c)) [c \<leftarrow> cs. routed env lo pat c] (max_program_len om)"
    and r: "\<forall>c \<in> set cs. routed env lo pat c \<longrightarrow> get_program_by_pid env (pid c) \<noteq> None"
    by simp_all
  have s: "set [c \<leftarrow> cs. routed env lo pat c] = {c \<in> set cs. routed env lo pat c}" by simp
  from w have m: "max_program_len om' =
           Max (insert (max_program_len om)
                  (name_width env ` {c \<in> set cs. routed env lo pat c}))"
    by (simp only: fold_max_Max s)
  have "\<forall>c \<in> set cs. routed env lo pat c \<longrightarrow>
            (\<exists>s. get_program_by_pid env (pid c) = Some s \<and> int (length s) \<le> max_program_len om')"
  proof (intro ballI impI)
    fix c assume c: "c \<in> set cs" "routed env lo pat c"
    with r obtain n where n: "get_program_by_pid env (pid c) = Some n" by auto
    then have "name_width env c = int (length n)" by (simp add: name_width_def)
    moreover have "name_width env c \<le>
        Max (insert (max_program_len om) (name_width env ` {c \<in> set cs. routed env lo pat c}))"
      using c by (intro Max_ge) auto
    ultimately show "\<exists>s. get_program_by_pid env (pid c) = Some s \<and>
        int (length s) \<le> max_program_len om'"
      using n m by simp
  qed
  with m show ?thesis by blast
qed

lemma loop_width_example:
  "connection_loop example_env False NoPattern [listen80, listen8080] (OutputManager_new, [], []) =
     ((OutputManager_new\<lparr>max_program_len := 44\<rparr>,
       [(80, Some 100, Some ''nginx'', None),
        (8080, Some 300, Some ''com.example.background-synchronisation-agent'', None)], []), Inr ())"
  by (simp add: excluded_def process_connection_def get_program_by_pid_def name_value_def
        example_env_def listen80_def listen8080_def OutputManager_new_def)

theorem width_reports_follow_filter_witness:
  "connection_loop example_env False NoPattern [listen80, listen8080] (OutputManager_new, [], []) =
     ((OutputManager_new\<lparr>max_program_len := 44\<rparr>,
       [(80, Some 100, Some ''nginx'', None),
        (8080, Some 300, Some ''com.example.background-synchronisation-agent'', None)], []), Inr ()) \<and>
   max_program_len (OutputManager_new\<lparr>max_program_len := 44\<rparr>) =
     Max (insert (max_program_len OutputManager_new)
            (name_width example_env `
               {c \<in> set [listen80, listen8080]. routed example_env False NoPattern c}))"
  using width_reports_follow_filter[OF loop_width_example] loop_width_example by blast

theorem width_reports_counterexample:
  "get_program_by_pid example_env (pid listen8080) =
     Some ''com.example.background-synchronisation-agent'' \<and>
   length ''com.example.background-synchronisation-agent'' = 44 \<and>
   status listen8080 = ''LISTEN'' \<and>
   get_port_program_mapping example_env [listen8080] OutputManager_new ''Port'' True True False
     (Some ''nginx'') =
     ([], OutputManager_new\<lparr>bare := True\<rparr>, Inr ([], [])) \<and>
   max_program_len (OutputManager_new\<lparr>bare := True\<rparr>) = 30"
  by (simp add: get_port_program_mapping_def compile_pattern_def example_env_def excluded_def
        listen8080_def set_bare_def OutputManager_new_def get_program_by_pid_def
        example_str_def str_nat.simps digit_char_def str_int_def sublist_code
        sort_bucket_def sorted_py_def print_section_def calculate_max_line_len_def)

section \<open>The column header\<close>
























section \<open>Bare output\<close>

text \<open>
  Claim C4, as the code has it. In bare mode the line starts with the port, the program
  name (\<open><unknown>\<close> for an unresolved one) and the process id, left-aligned in their
  columns and separated by one space. It has no service annotation (the line is the same
  for every service table) and no padded trailing field (it is no longer than the three
  columns, one space and the foreign-address string). The service name is nevertheless
  looked up for the entry.
\<close>

theorem bare_output_line:
  assumes "bare om" and "output_line env om port program p foreign_address dns = (calls, Inr line)"
  shows "GetServByPort port \<in> set calls \<and>
         (\<exists>i. p = Some i \<and>
              prefix (ljust 6 (str_nat port) @ '' '' @
                      ljust (nat (max_program_len om))
                        (case program of None \<Rightarrow> ''<unknown>''
                         | Some s \<Rightarrow> if s = [] then ''<unknown>'' else s) @ '' '' @
                      ljust 6 (str_int i)) line \<and>
              length line \<le>
                length (ljust 6 (str_nat port) @ '' '' @
                        ljust (nat (max_program_len om))
                          (case program of None \<Rightarrow> ''<unknown>''
                           | Some s \<Rightarrow> if s = [] then ''<unknown>'' else s) @ '' '' @
                        ljust 6 (str_int i)) + 1 +
                length (foreign_address_string env foreign_address dns)) \<and>
         output_line (env\<lparr>getservbyport := g\<rparr>) om port program p foreign_address dns =
           (calls, Inr line)"
proof -
  let ?prog = "case program of None \<Rightarrow> ''<unknown>''
               | Some s \<Rightarrow> if s = [] then ''<unknown>'' else s"
  from assms have f: "formatter om port ?prog p = Inr line"
    and c: "GetServByPort port \<in> set calls"
    by (auto simp: output_line_def Let_def split: sum.splits)
  from f obtain i where i: "p = Some i" and
    l: "line = ljust 6 (str_nat port) @ '' '' @ ljust (nat (max_program_len om)) ?prog @ '' '' @
               ljust 6 (str_int i)"
    by (auto simp: formatter_def split: if_splits option.splits)
  from assms f have g: "output_line (env\<lparr>getservbyport := g\<rparr>) om port program p foreign_address dns =
           (calls, Inr line)"
    by (auto simp: output_line_def Let_def foreign_address_string_def split: sum.splits)
  from i l have "\<exists>i. p = Some i \<and>
              prefix (ljust 6 (str_nat port) @ '' '' @
                      ljust (nat (max_program_len om)) ?prog @ '' '' @
                      ljust 6 (str_int i)) line \<and>
              length line \<le>
                length (ljust 6 (str_nat port) @ '' '' @
                        ljust (nat (max_program_len om)) ?prog @ '' '' @
                        ljust 6 (str_int i)) + 1 +
                length (foreign_address_string env foreign_address dns)"
    by simp
  with c g show ?thesis by blast
qed

lemma bare_output_example:
  "output_line example_env (OutputManager_new\<lparr>bare := True\<rparr>) 51000 (Some ''curl'') (Some 200)
     (Some (''93.184.216.34'', 80)) False =
   ([GetServByPort 51000], Inr ''51000  curl                           200   '')"
  by (simp add: output_line_def formatter_def example_env_def OutputManager_new_def ljust_def
        str_int_def str_nat.simps digit_char_def replicate_numeral foreign_address_string_def)

theorem bare_output_line_witness:
  "bare (OutputManager_new\<lparr>bare := True\<rparr>) \<and>
   output_line example_env (OutputManager_new\<lparr>bare := True\<rparr>) 51000 (Some ''curl'') (Some 200)
     (Some (''93.184.216.34'', 80)) False =
   ([GetServByPort 51000], Inr ''51000  curl                           200   '') \<and>
   GetServByPort 51000 \<in> set [GetServByPort 51000] \<and>
   output_line (example_env\<lparr>getservbyport := (\<lambda>p. Some ''http'')\<rparr>)
     (OutputManager_new\<lparr>bare := True\<rparr>) 51000 (Some ''curl'') (Some 200)
     (Some (''93.184.216.34'', 80)) False =
   ([GetServByPort 51000], Inr ''51000  curl                           200   '')"
  using bare_output_line[OF _ bare_output_example, of "\<lambda>p. Some ''http''"] bare_output_example
  by simp

theorem bare_output_line_counterexample:
  "bare (OutputManager_new\<lparr>bare := True\<rparr>) \<and>
   foreign_address_string example_env (Some (''93.184.216.34'', 80)) False = ''93.184.216.34:80'' \<and>
   output_line example_env (OutputManager_new\<lparr>bare := True\<rparr>) 51000 (Some ''curl'') (Some 200)
     (Some (''93.184.216.34'', 80)) False =
   ([GetServByPort 51000], Inr ''51000  curl                           200   '') \<and>
   \<not> sublist ''93.184.216.34:80'' ''51000  curl                           200   ''"
  by (simp add: output_line_def formatter_def example_env_def OutputManager_new_def ljust_def
        str_int_def str_nat.simps digit_char_def replicate_numeral foreign_address_string_def
        sublist_code)

end
